theory Spec2Isabelle
  imports Complex_Main "HOL-Library.Log_Nat" "HOL-Library.Stream"
begin

section \<open>Python values and exceptions\<close>

text \<open>
  The exceptions the module can raise, as values. \<open>InvalidParameter\<close> is the
  invalid-parameter error of the specification; \<open>PILError\<close> stands for any failure
  raised inside the imaging library.
\<close>

datatype error =
    NameError string
  | KeyError string
  | IndexError
  | OverflowError
  | ZeroDivisionError
  | ValueError
  | TypeError
  | InvalidParameter
  | PILError string

text \<open>
  A Python \<open>float\<close> is an IEEE 754 binary64 value: a finite double is the rational it
  denotes, next to the two infinities and NaN. The two zeros are identified, as Python's
  \<open>==\<close> identifies them; no operation of this module tells them apart.
\<close>

datatype pyfloat = Fin rat | PInf | NInf | NaN

text \<open>\<open>ilog2 q\<close> is the binary exponent of a non-zero rational: \<open>2 ^ e \<le> |q| < 2 ^ (e + 1)\<close>.\<close>

definition ilog2 :: "rat \<Rightarrow> int" where
  "ilog2 q = (case quotient_of q of (a, b) \<Rightarrow>
     (let d = bitlen \<bar>a\<bar> - bitlen b in if 2 powi d \<le> \<bar>q\<bar> then d else d - 1))"

text \<open>Rounding to the nearest integer, ties to the even one.\<close>

definition rne :: "rat \<Rightarrow> int" where
  "rne x = (let f = \<lfloor>x\<rfloor>; r = x - of_int f in
     if r < 1 / 2 then f else if 1 / 2 < r then f + 1 else if even f then f else f + 1)"

text \<open>
  Rounding a rational to binary64: 53 significant bits, least exponent \<open>-1022\<close>
  (subnormals share the spacing \<open>2 ^ -1074\<close>), overflow to an infinity from \<open>2 ^ 1024\<close> on.
\<close>

definition round_dbl :: "rat \<Rightarrow> pyfloat" where
  "round_dbl q = (if q = 0 then Fin 0 else
     (let e = max (ilog2 q) (- 1022); u = 2 powi (e - 52); r = of_int (rne (q / u)) * u in
      if 2 powi 1024 \<le> \<bar>r\<bar> then (if 0 < q then PInf else NInf) else Fin r))"

text \<open>A float literal of the source text, such as \<open>0.3\<close>, is the double nearest to it.\<close>

definition float_lit :: "rat \<Rightarrow> pyfloat" where
  "float_lit q = round_dbl q"

text \<open>
  The parts of \<open>round_dbl\<close> by name: the spacing of the doubles around \<open>q\<close>, the multiple
  of the spacing nearest to \<open>q\<close>, and the largest finite double.
\<close>

definition ulp_of :: "rat \<Rightarrow> rat" where
  "ulp_of q = 2 powi (max (ilog2 q) (- 1022) - 52)"

definition nearest :: "rat \<Rightarrow> rat" where
  "nearest q = of_int (rne (q / ulp_of q)) * ulp_of q"

definition max_double :: rat where
  "max_double = (2 ^ 53 - 1) * 2 ^ 971"

fun fmul :: "pyfloat \<Rightarrow> pyfloat \<Rightarrow> pyfloat" where
  "fmul NaN y = NaN"
| "fmul x NaN = NaN"
| "fmul (Fin a) (Fin b) = round_dbl (a * b)"
| "fmul (Fin a) PInf = (if a = 0 then NaN else if 0 < a then PInf else NInf)"
| "fmul (Fin a) NInf = (if a = 0 then NaN else if 0 < a then NInf else PInf)"
| "fmul PInf (Fin b) = (if b = 0 then NaN else if 0 < b then PInf else NInf)"
| "fmul NInf (Fin b) = (if b = 0 then NaN else if 0 < b then NInf else PInf)"
| "fmul PInf PInf = PInf"
| "fmul PInf NInf = NInf"
| "fmul NInf PInf = NInf"
| "fmul NInf NInf = PInf"

text \<open>Python raises on a zero divisor before any IEEE rule applies.\<close>

fun fdiv :: "pyfloat \<Rightarrow> pyfloat \<Rightarrow> error + pyfloat" where
  "fdiv x (Fin b) =
     (if b = 0 then Inl ZeroDivisionError
      else Inr (case x of
          Fin a \<Rightarrow> round_dbl (a / b)
        | PInf \<Rightarrow> (if 0 < b then PInf else NInf)
        | NInf \<Rightarrow> (if 0 < b then NInf else PInf)
        | NaN \<Rightarrow> NaN))"
| "fdiv x NaN = Inr NaN"
| "fdiv (Fin a) y = Inr (Fin 0)"
| "fdiv x y = Inr NaN"

fun fadd :: "pyfloat \<Rightarrow> pyfloat \<Rightarrow> pyfloat" where
  "fadd NaN y = NaN"
| "fadd x NaN = NaN"
| "fadd (Fin a) (Fin b) = round_dbl (a + b)"
| "fadd PInf NInf = NaN"
| "fadd NInf PInf = NaN"
| "fadd PInf y = PInf"
| "fadd NInf y = NInf"
| "fadd x PInf = PInf"
| "fadd x NInf = NInf"

text \<open>A Python number: an unbounded \<open>int\<close> or a \<open>float\<close>.\<close>

datatype pynum = PInt int | PFloat pyfloat

text \<open>\<open>float(x)\<close>, also the coercion of an \<open>int\<close> operand in mixed arithmetic.\<close>

fun py_float :: "pynum \<Rightarrow> error + pyfloat" where
  "py_float (PInt i) =
     (case round_dbl (of_int i) of Fin r \<Rightarrow> Inr (Fin r) | _ \<Rightarrow> Inl OverflowError)"
| "py_float (PFloat f) = Inr f"

fun py_mul :: "pynum \<Rightarrow> pynum \<Rightarrow> error + pynum" where
  "py_mul (PInt a) (PInt b) = Inr (PInt (a * b))"
| "py_mul x y =
     (case py_float x of Inl e \<Rightarrow> Inl e | Inr fx \<Rightarrow>
      (case py_float y of Inl e \<Rightarrow> Inl e | Inr fy \<Rightarrow> Inr (PFloat (fmul fx fy))))"

text \<open>True division: of two ints it is the correctly rounded quotient.\<close>

fun py_truediv :: "pynum \<Rightarrow> pynum \<Rightarrow> error + pynum" where
  "py_truediv (PInt a) (PInt b) =
     (if b = 0 then Inl ZeroDivisionError
      else (case round_dbl (of_int a / of_int b) of
          Fin r \<Rightarrow> Inr (PFloat (Fin r))
        | _ \<Rightarrow> Inl OverflowError))"
| "py_truediv x y =
     (case py_float x of Inl e \<Rightarrow> Inl e | Inr fx \<Rightarrow>
      (case py_float y of Inl e \<Rightarrow> Inl e | Inr fy \<Rightarrow>
       (case fdiv fx fy of Inl e \<Rightarrow> Inl e | Inr f \<Rightarrow> Inr (PFloat f))))"

fun py_add :: "pynum \<Rightarrow> pynum \<Rightarrow> error + pynum" where
  "py_add (PInt a) (PInt b) = Inr (PInt (a + b))"
| "py_add x y =
     (case py_float x of Inl e \<Rightarrow> Inl e | Inr fx \<Rightarrow>
      (case py_float y of Inl e \<Rightarrow> Inl e | Inr fy \<Rightarrow> Inr (PFloat (fadd fx fy))))"

fun fneg :: "pyfloat \<Rightarrow> pyfloat" where
  "fneg (Fin a) = Fin (- a)"
| "fneg PInf = NInf"
| "fneg NInf = PInf"
| "fneg NaN = NaN"

fun py_sub :: "pynum \<Rightarrow> pynum \<Rightarrow> error + pynum" where
  "py_sub (PInt a) (PInt b) = Inr (PInt (a - b))"
| "py_sub x y =
     (case py_float x of Inl e \<Rightarrow> Inl e | Inr fx \<Rightarrow>
      (case py_float y of Inl e \<Rightarrow> Inl e | Inr fy \<Rightarrow> Inr (PFloat (fadd fx (fneg fy)))))"

text \<open>\<open>int(x)\<close> truncates towards zero.\<close>

definition trunc :: "rat \<Rightarrow> int" where
  "trunc r = (if 0 \<le> r then \<lfloor>r\<rfloor> else \<lceil>r\<rceil>)"

fun py_int :: "pynum \<Rightarrow> error + int" where
  "py_int (PInt i) = Inr i"
| "py_int (PFloat (Fin r)) = Inr (trunc r)"
| "py_int (PFloat NaN) = Inl ValueError"
| "py_int (PFloat f) = Inl OverflowError"

text \<open>\<open>x < y\<close> on numbers is exact, also between an int and a float; NaN compares false.\<close>

fun flt :: "pyfloat \<Rightarrow> pyfloat \<Rightarrow> bool" where
  "flt NaN y = False"
| "flt x NaN = False"
| "flt (Fin a) (Fin b) = (a < b)"
| "flt x PInf = (x \<noteq> PInf)"
| "flt NInf y = (y \<noteq> NInf)"
| "flt x y = False"

fun py_lt :: "pynum \<Rightarrow> pynum \<Rightarrow> bool" where
  "py_lt (PInt a) (PInt b) = (a < b)"
| "py_lt (PInt a) (PFloat f) = flt (Fin (of_int a)) f"
| "py_lt (PFloat f) (PInt b) = flt f (Fin (of_int b))"
| "py_lt (PFloat f) (PFloat g) = flt f g"

section \<open>Rescaling functions\<close>

text \<open>\<open>return float(level) * max_val / param_max\<close>\<close>

definition rescale_float :: "pynum \<Rightarrow> pynum \<Rightarrow> pynum \<Rightarrow> error + pynum" where
  "rescale_float level max_val param_max =
     (case py_float level of Inl e \<Rightarrow> Inl e | Inr l \<Rightarrow>
      (case py_mul (PFloat l) max_val of Inl e \<Rightarrow> Inl e | Inr m \<Rightarrow>
       py_truediv m param_max))"

text \<open>\<open>return int(level * max_val / param_max)\<close>\<close>

definition rescale_int :: "pynum \<Rightarrow> pynum \<Rightarrow> pynum \<Rightarrow> error + pynum" where
  "rescale_int level max_val param_max =
     (case py_mul level max_val of Inl e \<Rightarrow> Inl e | Inr m \<Rightarrow>
      (case py_truediv m param_max of Inl e \<Rightarrow> Inl e | Inr d \<Rightarrow>
       (case py_int d of Inl e \<Rightarrow> Inl e | Inr i \<Rightarrow> Inr (PInt i))))"

text \<open>The default of the third parameter, \<open>param_max=10\<close>.\<close>

definition param_max_default :: pynum where
  "param_max_default = PInt 10"

text \<open>The mathematical value of a finite number, for stating what a result is close to.\<close>

definition num_val :: "pynum \<Rightarrow> rat option" where
  "num_val x = (case x of PInt i \<Rightarrow> Some (of_int i) | PFloat (Fin r) \<Rightarrow> Some r | _ \<Rightarrow> None)"

section \<open>The random source\<close>

text \<open>
  The module draws from Python's global generator. Its state is an endless tape of raw
  draws: \<open>random.random()\<close> turns the next one into a double \<open>k / 2 ^ 53\<close> of \<open>[0, 1)\<close>,
  and \<open>random.choice\<close> turns the next one into an index below the length of its argument,
  raising IndexError on an empty sequence.
\<close>

type_synonym rng = "nat stream"

definition random_random :: "rng \<Rightarrow> pyfloat \<times> rng" where
  "random_random g = (Fin (of_nat (shd g mod 2 ^ 53) / 2 ^ 53), stl g)"

definition random_choice :: "'a list \<Rightarrow> rng \<Rightarrow> error + ('a \<times> rng)" where
  "random_choice xs g =
     (if xs = [] then Inl IndexError else Inr (xs ! (shd g mod length xs), stl g))"

text \<open>
  Modelled from the spec: \<open>check_prob\<close> of \<open>tensorfn.vision.transforms\<close>, which is imported
  but not part of the sources at hand. The specification: a fresh uniform random draw
  decides whether the step fires, with probability \<open>p\<close>.
\<close>

definition check_prob :: "pynum \<Rightarrow> rng \<Rightarrow> bool \<times> rng" where
  "check_prob prob g = (case random_random g of (u, g') \<Rightarrow> (py_lt (PFloat u) prob, g'))"

section \<open>Transform instances\<close>

text \<open>PIL's resampling filters; \<open>Image.NEAREST\<close> is the default of every affine operation.\<close>

datatype resample_filter = NEAREST | BOX | BILINEAR | HAMMING | BICUBIC | LANCZOS

text \<open>
  An instance of one of the operation classes, with the attributes its \<open>__init__\<close>
  stores. \<open>Invert\<close>, \<open>AutoContrast\<close> and \<open>Equalize\<close> come from
  \<open>tensorfn.vision.transforms\<close>; they are built from the probability alone.
\<close>

datatype transform =
    ShearX (shear_x: pynum) (mirror: bool) (resample: resample_filter) (p: pynum)
  | ShearY (shear_y: pynum) (mirror: bool) (resample: resample_filter) (p: pynum)
  | TranslateX (translate_x: pynum) (mirror: bool) (resample: resample_filter) (p: pynum)
  | TranslateY (translate_y: pynum) (mirror: bool) (resample: resample_filter) (p: pynum)
  | Rotate (rotate: pynum) (mirror: bool) (resample: resample_filter) (p: pynum)
  | Posterize (bits: pynum) (p: pynum)
  | Solarize (threshold: pynum) (p: pynum)
  | Saturation (saturation: pynum) (p: pynum)
  | Contrast (contrast: pynum) (p: pynum)
  | Brightness (brightness: pynum) (p: pynum)
  | Sharpness (sharpness: pynum) (p: pynum)
  | Invert (p: pynum)
  | AutoContrast (p: pynum)
  | Equalize (p: pynum)

text \<open>The keyword arguments a \<open>sample()\<close> call returns: a dict, in insertion order.\<close>

type_synonym params = "(string \<times> pynum) list"

text \<open>
  \<open>AutoAugmentAffine._mirror\<close>: the generator is consulted only when \<open>self.mirror\<close> holds;
  \<open>val *= -1\<close> rebinds the local name, a number being immutable.
\<close>

definition AutoAugmentAffine_mirror :: "bool \<Rightarrow> pynum \<Rightarrow> rng \<Rightarrow> error + (pynum \<times> rng)" where
  "AutoAugmentAffine_mirror mir val g =
     (if mir then
        (case check_prob (PFloat (float_lit (1 / 2))) g of (flip, g') \<Rightarrow>
           (if flip then (case py_mul val (PInt (- 1)) of Inl e \<Rightarrow> Inl e | Inr v \<Rightarrow> Inr (v, g'))
            else Inr (val, g')))
      else Inr (val, g))"

text \<open>
  \<open>sample()\<close> of each class. \<open>TranslateY.sample\<close> binds \<open>trans_y\<close> and then returns
  \<open>{"translate_y": trans_x}\<close>: \<open>trans_x\<close> is bound nowhere, neither in the method nor in
  the module, so evaluating the dict display raises NameError. The three imported classes
  take no magnitude; their \<open>sample()\<close> is modelled from the spec as the empty record.
\<close>

fun sample :: "transform \<Rightarrow> rng \<Rightarrow> error + (params \<times> rng)" where
  "sample (ShearX v mir rs pr) g =
     (case AutoAugmentAffine_mirror mir v g of Inl e \<Rightarrow> Inl e
      | Inr (sx, g') \<Rightarrow> Inr ([(''shear_x'', sx)], g'))"
| "sample (ShearY v mir rs pr) g =
     (case AutoAugmentAffine_mirror mir v g of Inl e \<Rightarrow> Inl e
      | Inr (sy, g') \<Rightarrow> Inr ([(''shear_y'', sy)], g'))"
| "sample (TranslateX v mir rs pr) g =
     (case AutoAugmentAffine_mirror mir v g of Inl e \<Rightarrow> Inl e
      | Inr (trans_x, g') \<Rightarrow> Inr ([(''translate_x'', trans_x)], g'))"
| "sample (TranslateY v mir rs pr) g =
     (case AutoAugmentAffine_mirror mir v g of Inl e \<Rightarrow> Inl e
      | Inr (trans_y, g') \<Rightarrow> Inl (NameError ''trans_x''))"
| "sample (Rotate v mir rs pr) g =
     (case AutoAugmentAffine_mirror mir v g of Inl e \<Rightarrow> Inl e
      | Inr (rot, g') \<Rightarrow> Inr ([(''rotate'', rot)], g'))"
| "sample (Posterize v pr) g = Inr ([(''bits'', v)], g)"
| "sample (Solarize v pr) g = Inr ([(''threshold'', v)], g)"
| "sample (Saturation v pr) g = Inr ([(''saturation'', v)], g)"
| "sample (Contrast v pr) g = Inr ([(''contrast'', v)], g)"
| "sample (Brightness v pr) g = Inr ([(''brightness'', v)], g)"
| "sample (Sharpness v pr) g = Inr ([(''sharpness'', v)], g)"
| "sample (Invert pr) g = Inr ([], g)"
| "sample (AutoContrast pr) g = Inr ([], g)"
| "sample (Equalize pr) g = Inr ([], g)"

subsection \<open>Construction\<close>

text \<open>A probability lies in \<open>[0, 1]\<close>; NaN lies nowhere.\<close>

definition prob_in_unit :: "pynum \<Rightarrow> bool" where
  "prob_in_unit prob \<longleftrightarrow>
     \<not> py_lt prob (PInt 0) \<and> \<not> py_lt (PInt 1) prob \<and> prob \<noteq> PFloat NaN"

text \<open>
  Modelled from the spec: \<open>RandomTransform.__init__(p)\<close> of \<open>tensorfn.vision.transforms\<close>,
  the base class of every operation, which is not part of the sources at hand. The
  specification: each capability carries a fire probability \<open>p\<close> in \<open>[0, 1]\<close>, and a
  probability outside \<open>[0, 1]\<close> is fatal at the point of construction, with the
  invalid-parameter error. The initialiser hands back the value stored as \<open>self.p\<close>.
\<close>

definition RandomTransform_init :: "pynum \<Rightarrow> error + pynum" where
  "RandomTransform_init prob = (if prob_in_unit prob then Inr prob else Inl InvalidParameter)"

text \<open>
  \<open>AutoAugmentAffine.__init__(mirror, resample, p)\<close>: the base initialiser first, then the
  two attributes. Each subclass calls it and stores its magnitude; nothing is compared
  with any bound.
\<close>

definition AutoAugmentAffine_init ::
  "bool \<Rightarrow> resample_filter \<Rightarrow> pynum \<Rightarrow> error + (bool \<times> resample_filter \<times> pynum)" where
  "AutoAugmentAffine_init mir rs prob =
     (case RandomTransform_init prob of Inl e \<Rightarrow> Inl e | Inr pr \<Rightarrow> Inr (mir, rs, pr))"

definition ShearX_init :: "pynum \<Rightarrow> bool \<Rightarrow> resample_filter \<Rightarrow> pynum \<Rightarrow> error + transform" where
  "ShearX_init v mir rs prob =
     (case AutoAugmentAffine_init mir rs prob of Inl e \<Rightarrow> Inl e
      | Inr (m, r, pr) \<Rightarrow> Inr (ShearX v m r pr))"

definition ShearY_init :: "pynum \<Rightarrow> bool \<Rightarrow> resample_filter \<Rightarrow> pynum \<Rightarrow> error + transform" where
  "ShearY_init v mir rs prob =
     (case AutoAugmentAffine_init mir rs prob of Inl e \<Rightarrow> Inl e
      | Inr (m, r, pr) \<Rightarrow> Inr (ShearY v m r pr))"

definition TranslateX_init :: "pynum \<Rightarrow> bool \<Rightarrow> resample_filter \<Rightarrow> pynum \<Rightarrow> error + transform" where
  "TranslateX_init v mir rs prob =
     (case AutoAugmentAffine_init mir rs prob of Inl e \<Rightarrow> Inl e
      | Inr (m, r, pr) \<Rightarrow> Inr (TranslateX v m r pr))"

definition TranslateY_init :: "pynum \<Rightarrow> bool \<Rightarrow> resample_filter \<Rightarrow> pynum \<Rightarrow> error + transform" where
  "TranslateY_init v mir rs prob =
     (case AutoAugmentAffine_init mir rs prob of Inl e \<Rightarrow> Inl e
      | Inr (m, r, pr) \<Rightarrow> Inr (TranslateY v m r pr))"

definition Rotate_init :: "pynum \<Rightarrow> bool \<Rightarrow> resample_filter \<Rightarrow> pynum \<Rightarrow> error + transform" where
  "Rotate_init v mir rs prob =
     (case AutoAugmentAffine_init mir rs prob of Inl e \<Rightarrow> Inl e
      | Inr (m, r, pr) \<Rightarrow> Inr (Rotate v m r pr))"

definition Posterize_init :: "pynum \<Rightarrow> pynum \<Rightarrow> error + transform" where
  "Posterize_init v prob =
     (case RandomTransform_init prob of Inl e \<Rightarrow> Inl e | Inr pr \<Rightarrow> Inr (Posterize v pr))"

definition Solarize_init :: "pynum \<Rightarrow> pynum \<Rightarrow> error + transform" where
  "Solarize_init v prob =
     (case RandomTransform_init prob of Inl e \<Rightarrow> Inl e | Inr pr \<Rightarrow> Inr (Solarize v pr))"

definition Saturation_init :: "pynum \<Rightarrow> pynum \<Rightarrow> error + transform" where
  "Saturation_init v prob =
     (case RandomTransform_init prob of Inl e \<Rightarrow> Inl e | Inr pr \<Rightarrow> Inr (Saturation v pr))"

definition Contrast_init :: "pynum \<Rightarrow> pynum \<Rightarrow> error + transform" where
  "Contrast_init v prob =
     (case RandomTransform_init prob of Inl e \<Rightarrow> Inl e | Inr pr \<Rightarrow> Inr (Contrast v pr))"

definition Brightness_init :: "pynum \<Rightarrow> pynum \<Rightarrow> error + transform" where
  "Brightness_init v prob =
     (case RandomTransform_init prob of Inl e \<Rightarrow> Inl e | Inr pr \<Rightarrow> Inr (Brightness v pr))"

definition Sharpness_init :: "pynum \<Rightarrow> pynum \<Rightarrow> error + transform" where
  "Sharpness_init v prob =
     (case RandomTransform_init prob of Inl e \<Rightarrow> Inl e | Inr pr \<Rightarrow> Inr (Sharpness v pr))"

text \<open>
  Modelled from the spec: the constructors of \<open>transforms.Invert\<close>,
  \<open>transforms.AutoContrast\<close> and \<open>transforms.Equalize\<close>, which are not part of the sources
  at hand. The specification: these operations take no magnitude and are constructed
  using only the probability.
\<close>

definition Invert_init :: "pynum \<Rightarrow> error + transform" where
  "Invert_init prob =
     (case RandomTransform_init prob of Inl e \<Rightarrow> Inl e | Inr pr \<Rightarrow> Inr (Invert pr))"

definition AutoContrast_init :: "pynum \<Rightarrow> error + transform" where
  "AutoContrast_init prob =
     (case RandomTransform_init prob of Inl e \<Rightarrow> Inl e | Inr pr \<Rightarrow> Inr (AutoContrast pr))"

definition Equalize_init :: "pynum \<Rightarrow> error + transform" where
  "Equalize_init prob =
     (case RandomTransform_init prob of Inl e \<Rightarrow> Inl e | Inr pr \<Rightarrow> Inr (Equalize pr))"

section \<open>The registry and the policy table\<close>

text \<open>
  The class objects held by \<open>autoaugment_map\<close>, and the two shapes in which
  \<open>autoaugment_policy\<close> calls them: \<open>augment_fn(magnitude, p=prob)\<close> and
  \<open>augment_fn(p=prob)\<close>. The other parameters keep their defaults, \<open>mirror=True\<close> and
  \<open>resample=Image.NEAREST\<close>. A class with a magnitude parameter called without it, or a
  class without one called with it, is a TypeError.
\<close>

datatype augment_cls =
    ShearX_cls | ShearY_cls | TranslateX_cls | TranslateY_cls | Rotate_cls
  | Solarize_cls | Posterize_cls | Contrast_cls | Saturation_cls | Brightness_cls
  | Sharpness_cls | Invert_cls | AutoContrast_cls | Equalize_cls

fun call_magnitude :: "augment_cls \<Rightarrow> pynum \<Rightarrow> pynum \<Rightarrow> error + transform" where
  "call_magnitude ShearX_cls m prob = ShearX_init m True NEAREST prob"
| "call_magnitude ShearY_cls m prob = ShearY_init m True NEAREST prob"
| "call_magnitude TranslateX_cls m prob = TranslateX_init m True NEAREST prob"
| "call_magnitude TranslateY_cls m prob = TranslateY_init m True NEAREST prob"
| "call_magnitude Rotate_cls m prob = Rotate_init m True NEAREST prob"
| "call_magnitude Solarize_cls m prob = Solarize_init m prob"
| "call_magnitude Posterize_cls m prob = Posterize_init m prob"
| "call_magnitude Contrast_cls m prob = Contrast_init m prob"
| "call_magnitude Saturation_cls m prob = Saturation_init m prob"
| "call_magnitude Brightness_cls m prob = Brightness_init m prob"
| "call_magnitude Sharpness_cls m prob = Sharpness_init m prob"
| "call_magnitude c m prob = Inl TypeError"

fun call_prob :: "augment_cls \<Rightarrow> pynum \<Rightarrow> error + transform" where
  "call_prob Invert_cls prob = Invert_init prob"
| "call_prob AutoContrast_cls prob = AutoContrast_init prob"
| "call_prob Equalize_cls prob = Equalize_init prob"
| "call_prob c prob = Inl TypeError"

text \<open>The lambdas of \<open>autoaugment_map\<close>, in the order of the dict display.\<close>

definition reparam_shear :: "pynum \<Rightarrow> error + pynum" where
  "reparam_shear level = rescale_float level (PFloat (float_lit (3 / 10))) param_max_default"

definition reparam_translate :: "pynum \<Rightarrow> error + pynum" where
  "reparam_translate level = rescale_int level (PInt 10) param_max_default"

definition reparam_rotate :: "pynum \<Rightarrow> error + pynum" where
  "reparam_rotate level = rescale_int level (PInt 30) param_max_default"

definition reparam_solarize :: "pynum \<Rightarrow> error + pynum" where
  "reparam_solarize level =
     (case rescale_int level (PInt 256) param_max_default of Inl e \<Rightarrow> Inl e
      | Inr r \<Rightarrow> py_sub (PInt 256) r)"

definition reparam_posterize :: "pynum \<Rightarrow> error + pynum" where
  "reparam_posterize level =
     (case rescale_int level (PInt 4) param_max_default of Inl e \<Rightarrow> Inl e
      | Inr r \<Rightarrow> py_sub (PInt 4) r)"

definition reparam_enhance :: "pynum \<Rightarrow> error + pynum" where
  "reparam_enhance level =
     (case rescale_float level (PFloat (float_lit (18 / 10))) param_max_default of Inl e \<Rightarrow> Inl e
      | Inr r \<Rightarrow> py_add r (PFloat (float_lit (1 / 10))))"

definition autoaugment_map :: "string \<rightharpoonup> augment_cls \<times> (pynum \<Rightarrow> error + pynum) option" where
  "autoaugment_map = map_of
     [(''ShearX'', (ShearX_cls, Some reparam_shear)),
      (''ShearY'', (ShearY_cls, Some reparam_shear)),
      (''TranslateX'', (TranslateX_cls, Some reparam_translate)),
      (''TranslateY'', (TranslateY_cls, Some reparam_translate)),
      (''Rotate'', (Rotate_cls, Some reparam_rotate)),
      (''Solarize'', (Solarize_cls, Some reparam_solarize)),
      (''Posterize'', (Posterize_cls, Some reparam_posterize)),
      (''Contrast'', (Contrast_cls, Some reparam_enhance)),
      (''Color'', (Saturation_cls, Some reparam_enhance)),
      (''Brightness'', (Brightness_cls, Some reparam_enhance)),
      (''Sharpness'', (Sharpness_cls, Some reparam_enhance)),
      (''Invert'', (Invert_cls, None)),
      (''AutoContrast'', (AutoContrast_cls, None)),
      (''Equalize'', (Equalize_cls, None))]"

text \<open>What a registry entry does with a level: the rule applied, or nothing to apply.\<close>

definition reparam_at :: "string \<Rightarrow> pynum \<Rightarrow> (error + pynum) option option" where
  "reparam_at augment level =
     (case autoaugment_map augment of
        None \<Rightarrow> None
      | Some (augment_fn, None) \<Rightarrow> Some None
      | Some (augment_fn, Some reparam_fn) \<Rightarrow> Some (Some (reparam_fn level)))"

type_synonym triple = "string \<times> pynum \<times> pynum"

definition policy_list :: "triple list list" where
  "policy_list =
     [[(''Posterize'', PFloat (float_lit (4 / 10)), PInt 8), (''Rotate'', PFloat (float_lit (6 / 10)), PInt 9)],
      [(''Solarize'', PFloat (float_lit (6 / 10)), PInt 5), (''AutoContrast'', PFloat (float_lit (6 / 10)), PInt 5)],
      [(''Equalize'', PFloat (float_lit (8 / 10)), PInt 8), (''Equalize'', PFloat (float_lit (6 / 10)), PInt 3)],
      [(''Posterize'', PFloat (float_lit (6 / 10)), PInt 7), (''Posterize'', PFloat (float_lit (6 / 10)), PInt 6)],
      [(''Equalize'', PFloat (float_lit (4 / 10)), PInt 7), (''Solarize'', PFloat (float_lit (2 / 10)), PInt 4)],
      [(''Equalize'', PFloat (float_lit (4 / 10)), PInt 4), (''Rotate'', PFloat (float_lit (8 / 10)), PInt 8)],
      [(''Solarize'', PFloat (float_lit (6 / 10)), PInt 3), (''Equalize'', PFloat (float_lit (6 / 10)), PInt 7)],
      [(''Posterize'', PFloat (float_lit (8 / 10)), PInt 5), (''Equalize'', PFloat (float_lit 1), PInt 2)],
      [(''Rotate'', PFloat (float_lit (2 / 10)), PInt 3), (''Solarize'', PFloat (float_lit (6 / 10)), PInt 8)],
      [(''Equalize'', PFloat (float_lit (6 / 10)), PInt 8), (''Posterize'', PFloat (float_lit (4 / 10)), PInt 6)],
      [(''Rotate'', PFloat (float_lit (8 / 10)), PInt 8), (''Color'', PFloat (float_lit (4 / 10)), PInt 0)],
      [(''Rotate'', PFloat (float_lit (4 / 10)), PInt 9), (''Equalize'', PFloat (float_lit (6 / 10)), PInt 2)],
      [(''Equalize'', PFloat (float_lit 0), PInt 7), (''Equalize'', PFloat (float_lit (8 / 10)), PInt 8)],
      [(''Invert'', PFloat (float_lit (6 / 10)), PInt 4), (''Equalize'', PFloat (float_lit 1), PInt 8)],
      [(''Color'', PFloat (float_lit (6 / 10)), PInt 4), (''Contrast'', PFloat (float_lit 1), PInt 8)],
      [(''Rotate'', PFloat (float_lit (8 / 10)), PInt 8), (''Color'', PFloat (float_lit 1), PInt 0)],
      [(''Color'', PFloat (float_lit (8 / 10)), PInt 8), (''Solarize'', PFloat (float_lit (8 / 10)), PInt 7)],
      [(''Sharpness'', PFloat (float_lit (4 / 10)), PInt 7), (''Invert'', PFloat (float_lit (6 / 10)), PInt 8)],
      [(''ShearX'', PFloat (float_lit (6 / 10)), PInt 5), (''Equalize'', PFloat (float_lit 1), PInt 9)],
      [(''Color'', PFloat (float_lit (4 / 10)), PInt 0), (''Equalize'', PFloat (float_lit (6 / 10)), PInt 3)],
      [(''Equalize'', PFloat (float_lit (4 / 10)), PInt 7), (''Solarize'', PFloat (float_lit (2 / 10)), PInt 4)],
      [(''Solarize'', PFloat (float_lit (6 / 10)), PInt 5), (''AutoContrast'', PFloat (float_lit (6 / 10)), PInt 5)],
      [(''Invert'', PFloat (float_lit (6 / 10)), PInt 4), (''Equalize'', PFloat (float_lit 1), PInt 8)],
      [(''Color'', PFloat (float_lit (6 / 10)), PInt 4), (''Contrast'', PFloat (float_lit 1), PInt 8)],
      [(''Equalize'', PFloat (float_lit (8 / 10)), PInt 8), (''Equalize'', PFloat (float_lit (6 / 10)), PInt 3)]]"

text \<open>
  The body of the inner loop: the subscript \<open>autoaugment_map[augment]\<close> raises KeyError on
  a name that is not a key; then the branch on \<open>reparam_fn is not None\<close>.
\<close>

fun make_transform :: "triple \<Rightarrow> error + transform" where
  "make_transform (augment, prob, magnitude) =
     (case autoaugment_map augment of
        None \<Rightarrow> Inl (KeyError augment)
      | Some (augment_fn, reparam_fn) \<Rightarrow>
          (case reparam_fn of
             Some f \<Rightarrow>
               (case f magnitude of Inl e \<Rightarrow> Inl e | Inr m \<Rightarrow> call_magnitude augment_fn m prob)
           | None \<Rightarrow> call_prob augment_fn prob))"

text \<open>The inner loop, \<open>sub_pol\<close> growing by \<open>append\<close>; an exception leaves the loops.\<close>

fun build_sub_pol :: "triple list \<Rightarrow> transform list \<Rightarrow> error + transform list" where
  "build_sub_pol [] sub_pol = Inr sub_pol"
| "build_sub_pol (pol # rest) sub_pol =
     (case make_transform pol of Inl e \<Rightarrow> Inl e
      | Inr t \<Rightarrow> build_sub_pol rest (sub_pol @ [t]))"

text \<open>The outer loop, \<open>reparam_policy\<close> growing by \<open>append\<close>.\<close>

fun build_policy :: "triple list list \<Rightarrow> transform list list \<Rightarrow> error + transform list list" where
  "build_policy [] reparam_policy = Inr reparam_policy"
| "build_policy (policy # rest) reparam_policy =
     (case build_sub_pol policy [] of Inl e \<Rightarrow> Inl e
      | Inr sub_pol \<Rightarrow> build_policy rest (reparam_policy @ [sub_pol]))"

definition autoaugment_policy :: "error + transform list list" where
  "autoaugment_policy = build_policy policy_list []"

text \<open>
  The invariants of the specification's data model on a triple of the literal table: the
  probability lies in \<open>[0, 1]\<close> and the level is a number in \<open>[0, 10]\<close>.
\<close>

definition wf_triple :: "triple \<Rightarrow> bool" where
  "wf_triple t = (case t of (augment, prob, magnitude) \<Rightarrow>
     prob_in_unit prob \<and>
     (case num_val magnitude of Some lv \<Rightarrow> 0 \<le> lv \<and> lv \<le> 10 | None \<Rightarrow> False))"

text \<open>A triple whose operation name is not a key of the registry.\<close>

definition unknown_op :: "triple \<Rightarrow> bool" where
  "unknown_op t = (autoaugment_map (fst t) = None)"

section \<open>Applying an operation\<close>

text \<open>
  The calls into the imaging library, which lies outside this module: the library is a
  parameter, a function from a call and an image to a new image or an exception.
  \<open>Transform_AFFINE\<close> is \<open>img.transform(img.size, Image.AFFINE, data, resample)\<close> with
  its six coefficients, \<open>Image_rotate\<close> is \<open>img.rotate(angle, resample=...)\<close>, the
  others are the functions of \<open>ImageOps\<close> and the enhancers of \<open>ImageEnhance\<close>.
\<close>

datatype pil_op =
    Transform_AFFINE "pynum list" resample_filter
  | Image_rotate pynum resample_filter
  | ImageOps_posterize pynum
  | ImageOps_solarize pynum
  | Enhance_Color pynum
  | Enhance_Contrast pynum
  | Enhance_Brightness pynum
  | Enhance_Sharpness pynum
  | ImageOps_invert
  | ImageOps_autocontrast
  | ImageOps_equalize

type_synonym 'img pil = "pil_op \<Rightarrow> 'img \<Rightarrow> error + 'img"

text \<open>
  \<open>AutoAugmentAffine._apply_img_fn(img, translate, shear)\<close>: the coefficient tuple
  \<open>(1, shear_x, trans_x, shear_y, 1, trans_y)\<close>.
\<close>

definition priv_apply_img_fn ::
  "resample_filter \<Rightarrow> pynum \<times> pynum \<Rightarrow> pynum \<times> pynum \<Rightarrow> pil_op" where
  "priv_apply_img_fn rs translate shear =
     (case translate of (trans_x, trans_y) \<Rightarrow>
      (case shear of (sx, sy) \<Rightarrow>
        Transform_AFFINE [PInt 1, sx, trans_x, sy, PInt 1, trans_y] rs))"

text \<open>
  Binding \<open>**params\<close> to the single keyword parameter of an \<open>_apply_img\<close>: any other
  record is a TypeError.
\<close>

definition bind_kw :: "string \<Rightarrow> params \<Rightarrow> error + pynum" where
  "bind_kw name ps =
     (case ps of [(k, v)] \<Rightarrow> (if k = name then Inr v else Inl TypeError) | _ \<Rightarrow> Inl TypeError)"

definition bind_none :: "params \<Rightarrow> pil_op \<Rightarrow> error + pil_op" where
  "bind_none ps call = (case ps of [] \<Rightarrow> Inr call | _ \<Rightarrow> Inl TypeError)"

text \<open>
  \<open>_apply_img(img, **params)\<close> of each class: the library call it makes. For the three
  imported classes the call is modelled from the spec (inversion, auto-contrast,
  histogram equalization, no parameter).
\<close>

fun priv_apply_img :: "transform \<Rightarrow> params \<Rightarrow> error + pil_op" where
  "priv_apply_img (ShearX v mir rs pr) ps =
     (case bind_kw ''shear_x'' ps of Inl e \<Rightarrow> Inl e
      | Inr sx \<Rightarrow> Inr (priv_apply_img_fn rs (PInt 0, PInt 0) (sx, PInt 0)))"
| "priv_apply_img (ShearY v mir rs pr) ps =
     (case bind_kw ''shear_y'' ps of Inl e \<Rightarrow> Inl e
      | Inr sy \<Rightarrow> Inr (priv_apply_img_fn rs (PInt 0, PInt 0) (PInt 0, sy)))"
| "priv_apply_img (TranslateX v mir rs pr) ps =
     (case bind_kw ''translate_x'' ps of Inl e \<Rightarrow> Inl e
      | Inr tx \<Rightarrow> Inr (priv_apply_img_fn rs (tx, PInt 0) (PInt 0, PInt 0)))"
| "priv_apply_img (TranslateY v mir rs pr) ps =
     (case bind_kw ''translate_y'' ps of Inl e \<Rightarrow> Inl e
      | Inr ty \<Rightarrow> Inr (priv_apply_img_fn rs (PInt 0, ty) (PInt 0, PInt 0)))"
| "priv_apply_img (Rotate v mir rs pr) ps =
     (case bind_kw ''rotate'' ps of Inl e \<Rightarrow> Inl e | Inr rot \<Rightarrow> Inr (Image_rotate rot rs))"
| "priv_apply_img (Posterize v pr) ps =
     (case bind_kw ''bits'' ps of Inl e \<Rightarrow> Inl e | Inr b \<Rightarrow> Inr (ImageOps_posterize b))"
| "priv_apply_img (Solarize v pr) ps =
     (case bind_kw ''threshold'' ps of Inl e \<Rightarrow> Inl e | Inr th \<Rightarrow> Inr (ImageOps_solarize th))"
| "priv_apply_img (Saturation v pr) ps =
     (case bind_kw ''saturation'' ps of Inl e \<Rightarrow> Inl e | Inr f \<Rightarrow> Inr (Enhance_Color f))"
| "priv_apply_img (Contrast v pr) ps =
     (case bind_kw ''contrast'' ps of Inl e \<Rightarrow> Inl e | Inr f \<Rightarrow> Inr (Enhance_Contrast f))"
| "priv_apply_img (Brightness v pr) ps =
     (case bind_kw ''brightness'' ps of Inl e \<Rightarrow> Inl e | Inr f \<Rightarrow> Inr (Enhance_Brightness f))"
| "priv_apply_img (Sharpness v pr) ps =
     (case bind_kw ''sharpness'' ps of Inl e \<Rightarrow> Inl e | Inr f \<Rightarrow> Inr (Enhance_Sharpness f))"
| "priv_apply_img (Invert pr) ps = bind_none ps ImageOps_invert"
| "priv_apply_img (AutoContrast pr) ps = bind_none ps ImageOps_autocontrast"
| "priv_apply_img (Equalize pr) ps = bind_none ps ImageOps_equalize"

text \<open>
  Modelled from the spec: \<open>RandomTransform.apply_img(img, **params)\<close>, inherited by every
  operation and not part of the sources at hand. The specification: each time the step
  is reached, a fresh uniform draw against the instance's own \<open>p\<close> decides whether the
  operation runs; if the draw fails the image passes through unchanged, if it fires the
  image is replaced by the applied result; a failure of the operation propagates.
\<close>

definition apply_img ::
  "'img pil \<Rightarrow> transform \<Rightarrow> 'img \<Rightarrow> params \<Rightarrow> rng \<Rightarrow> error + ('img \<times> rng)" where
  "apply_img pil t img ps g =
     (case check_prob (p t) g of (fire, g') \<Rightarrow>
        (if fire then
           (case priv_apply_img t ps of Inl e \<Rightarrow> Inl e
            | Inr call \<Rightarrow> (case pil call img of Inl e \<Rightarrow> Inl e | Inr img' \<Rightarrow> Inr (img', g')))
         else Inr (img, g')))"

text \<open>
  Modelled from the spec: \<open>RandomTransform.apply_img_check(img, **params)\<close>, likewise
  absent. The specification: the same as \<open>apply_img\<close>, through the same gate and the same
  draw, returning in addition a diagnostic of what was done.
\<close>

datatype diagnostic = Skipped | Fired pil_op

definition apply_img_check ::
  "'img pil \<Rightarrow> transform \<Rightarrow> 'img \<Rightarrow> params \<Rightarrow> rng \<Rightarrow> error + (('img \<times> diagnostic) \<times> rng)" where
  "apply_img_check pil t img ps g =
     (case check_prob (p t) g of (fire, g') \<Rightarrow>
        (if fire then
           (case priv_apply_img t ps of Inl e \<Rightarrow> Inl e
            | Inr call \<Rightarrow>
                (case pil call img of Inl e \<Rightarrow> Inl e | Inr img' \<Rightarrow> Inr ((img', Fired call), g')))
         else Inr ((img, Skipped), g')))"

section \<open>The executor\<close>

text \<open>\<open>AutoAugment.__init__(policy)\<close> stores the table as \<open>self.policy\<close>.\<close>

record autoaugment =
  policy :: "transform list list"

definition AutoAugment_init :: "transform list list \<Rightarrow> autoaugment" where
  "AutoAugment_init pol = \<lparr>policy = pol\<rparr>"

text \<open>The loop of \<open>__call__\<close>: \<open>sample = pol.sample(); img = pol.apply_img(img, **sample)\<close>.\<close>

fun call_loop :: "'img pil \<Rightarrow> transform list \<Rightarrow> 'img \<Rightarrow> rng \<Rightarrow> error + ('img \<times> rng)" where
  "call_loop pil [] img g = Inr (img, g)"
| "call_loop pil (pol # rest) img g =
     (case sample pol g of Inl e \<Rightarrow> Inl e
      | Inr (smp, g1) \<Rightarrow>
          (case apply_img pil pol img smp g1 of Inl e \<Rightarrow> Inl e
           | Inr (img', g2) \<Rightarrow> call_loop pil rest img' g2))"

text \<open>
  A method takes the instance and the generator and hands both back: the result, the
  generator after the draws, and the instance as the method leaves it. Neither entry
  point contains an assignment to an attribute.
\<close>

definition AutoAugment_call ::
  "'img pil \<Rightarrow> autoaugment \<Rightarrow> 'img \<Rightarrow> rng \<Rightarrow> (error + ('img \<times> rng)) \<times> autoaugment" where
  "AutoAugment_call pil self img g =
     (case random_choice (policy self) g of
        Inl e \<Rightarrow> (Inl e, self)
      | Inr (selected_policy, g1) \<Rightarrow> (call_loop pil selected_policy img g1, self))"

type_synonym log_entry = "transform \<times> params \<times> diagnostic"

text \<open>
  The loop of \<open>check\<close>:
  \<open>sample = pol.sample(); img, check = pol.apply_img_check(img, **sample);
  log.append((pol, sample, check))\<close>.
\<close>

fun check_loop ::
  "'img pil \<Rightarrow> transform list \<Rightarrow> 'img \<Rightarrow> log_entry list \<Rightarrow> rng
     \<Rightarrow> error + (('img \<times> log_entry list) \<times> rng)" where
  "check_loop pil [] img lg g = Inr ((img, lg), g)"
| "check_loop pil (pol # rest) img lg g =
     (case sample pol g of Inl e \<Rightarrow> Inl e
      | Inr (smp, g1) \<Rightarrow>
          (case apply_img_check pil pol img smp g1 of Inl e \<Rightarrow> Inl e
           | Inr ((img', chk), g2) \<Rightarrow> check_loop pil rest img' (lg @ [(pol, smp, chk)]) g2))"

definition AutoAugment_check ::
  "'img pil \<Rightarrow> autoaugment \<Rightarrow> 'img \<Rightarrow> rng
     \<Rightarrow> (error + (('img \<times> log_entry list) \<times> rng)) \<times> autoaugment" where
  "AutoAugment_check pil self img g =
     (case random_choice (policy self) g of
        Inl e \<Rightarrow> (Inl e, self)
      | Inr (selected_policy, g1) \<Rightarrow> (check_loop pil selected_policy img [] g1, self))"



text \<open>A stand-in for the imaging library in concrete runs: it counts the calls made.\<close>

definition pil_count :: "nat pil" where
  "pil_count call img = Inr (Suc img)"

section \<open>Helper facts\<close>

lemma round_dbl_neg_one: "round_dbl (- 1) = Fin (- 1)"
  by code_simp

lemma py_mul_neg_one: "\<exists>v. py_mul val (PInt (- 1)) = Inr v"
proof (cases val)
  case (PInt i)
  then show ?thesis by simp
next
  case (PFloat f)
  then show ?thesis by (simp add: round_dbl_neg_one)
qed

lemma mirror_total: "\<exists>v g'. AutoAugmentAffine_mirror mir val g = Inr (v, g')"
proof -
  obtain w where w: "py_mul val (PInt (- 1)) = Inr w"
    using py_mul_neg_one by blast
  show ?thesis
    by (simp add: AutoAugmentAffine_mirror_def w split: prod.split)
qed

subsection \<open>Rounding to binary64\<close>

lemma quot_pos: "quotient_of q = (a, b) \<Longrightarrow> 0 < b \<and> q = of_int a / of_int b"
  using quotient_of_denom_pos quotient_of_div by blast

lemma ilog2_le:
  assumes "q \<noteq> 0"
  shows "2 powi (ilog2 q) \<le> \<bar>q\<bar>"
proof -
  obtain a b where ab: "quotient_of q = (a, b)" by (cases "quotient_of q")
  then have b: "0 < b" and q: "q = of_int a / of_int b" using quot_pos by blast+
  from assms q have a: "0 < \<bar>a\<bar>" by auto
  define la where "la = bitlen \<bar>a\<bar>"
  define lb where "lb = bitlen b"
  have la1: "1 \<le> la" using a bitlen_eq_zero_iff[of "\<bar>a\<bar>"] bitlen_nonneg[of "\<bar>a\<bar>"] unfolding la_def by linarith
  have "2 ^ nat (la - 1) \<le> \<bar>a\<bar>" using bitlen_bounds[OF a] la_def by simp
  then have "(of_int (2 ^ nat (la - 1)) :: rat) \<le> of_int \<bar>a\<bar>" by (simp only: of_int_le_iff)
  then have A: "(2::rat) powi (la - 1) \<le> of_int \<bar>a\<bar>" using la1 by (simp add: power_int_def)
  have "b < 2 ^ nat lb" using bitlen_bounds[OF b] lb_def by simp
  then have "(of_int b :: rat) < of_int (2 ^ nat lb)" by (simp only: of_int_less_iff)
  then have B: "(of_int b :: rat) < 2 powi lb" using bitlen_nonneg[of b] by (simp add: power_int_def lb_def)
  have bpos: "(0::rat) < of_int b" using b by simp
  have qabs: "\<bar>q\<bar> = of_int \<bar>a\<bar> / of_int b" using q b by (simp add: abs_div)
  have "(2::rat) powi (la - 1 - lb) = 2 powi (la - 1) / 2 powi lb" by (simp add: power_int_diff)
  also have "\<dots> \<le> of_int \<bar>a\<bar> / 2 powi lb" using A by (simp add: divide_right_mono)
  also have "\<dots> \<le> of_int \<bar>a\<bar> / of_int b" using B bpos a
    by (intro divide_left_mono) (auto intro: mult_pos_pos)
  finally have C: "(2::rat) powi (la - lb - 1) \<le> \<bar>q\<bar>" using qabs by (simp add: algebra_simps)
  show ?thesis
    using C by (simp add: ilog2_def ab Let_def la_def lb_def)
qed

lemma rne_err: "\<bar>of_int (rne x) - x\<bar> \<le> 1 / 2"
proof -
  have f1: "of_int \<lfloor>x\<rfloor> \<le> x" and f2: "x < of_int \<lfloor>x\<rfloor> + 1" by linarith+
  show ?thesis
    unfolding rne_def Let_def using f1 f2 by (simp split: if_splits)
qed

lemma rne_of_int: "rne (of_int k) = k"
  by (simp add: rne_def)


lemma round_dbl_near:
  assumes q0: "q \<noteq> 0" and qb: "\<bar>q\<bar> < 2 ^ 49"
  shows "\<exists>r. round_dbl q = Fin r \<and> \<bar>r - q\<bar> \<le> 1 / 32 \<and> (q \<in> \<int> \<longrightarrow> r = q)"
proof -
  define e where "e = max (ilog2 q) (- 1022)"
  define u :: rat where "u = 2 powi (e - 52)"
  define r where "r = of_int (rne (q / u)) * u"
  have "(2::rat) powi ilog2 q < 2 powi 49" using ilog2_le[OF q0] qb by simp
  moreover have "(2::rat) powi 49 \<le> 2 powi ilog2 q" if "49 \<le> ilog2 q"
    using that by (intro power_int_increasing) auto
  ultimately have "ilog2 q < 49" by force
  then have e48: "e \<le> 48" by (simp add: e_def)
  have upos: "0 < u" by (simp add: u_def)
  have "u \<le> 2 powi (- 4)" unfolding u_def using e48 by (intro power_int_increasing) auto
  moreover have "(2::rat) powi (- 4) = 1 / 16" by (simp add: power_int_def power_divide)
  ultimately have u16: "u \<le> 1 / 16" by simp
  have "r - q = (of_int (rne (q / u)) - q / u) * u"
    using upos by (simp add: r_def left_diff_distrib)
  then have "\<bar>r - q\<bar> = \<bar>of_int (rne (q / u)) - q / u\<bar> * u"
    using upos by (simp only: abs_mult abs_of_pos)
  also have "\<dots> \<le> (1 / 2) * u" using rne_err[of "q / u"] upos by (intro mult_right_mono) auto
  also have "\<dots> \<le> 1 / 32" using u16 by simp
  finally have near: "\<bar>r - q\<bar> \<le> 1 / 32" .
  have exact: "r = q" if "q \<in> \<int>"
  proof -
    from that obtain k :: int where k: "q = of_int k" by (auto elim: Ints_cases)
    have "1 / u = 2 powi (52 - e)" by (simp add: u_def power_int_diff)
    also have "\<dots> = of_int (2 ^ nat (52 - e))" using e48 by (simp add: power_int_def)
    finally have iu: "1 / u = of_int (2 ^ nat (52 - e))" .
    have "q / u = q * (1 / u)" by simp
    also have "\<dots> = of_int (k * 2 ^ nat (52 - e))" unfolding iu k by simp
    finally have "q / u = of_int (k * 2 ^ nat (52 - e))" .
    then have "of_int (rne (q / u)) = q / u" by (simp only: rne_of_int)
    then show ?thesis using upos by (simp add: r_def)
  qed
  have "\<bar>r\<bar> \<le> \<bar>q\<bar> + 1 / 32" using near by linarith
  then have "\<bar>r\<bar> < 2 ^ 50" using qb by simp
  moreover have "(2::rat) ^ 50 \<le> 2 ^ 1024" by (intro power_increasing) auto
  ultimately have "\<not> 2 powi 1024 \<le> \<bar>r\<bar>" by (simp add: power_int_def)
  then have "round_dbl q = Fin r"
    using q0 by (simp add: round_dbl_def Let_def e_def[symmetric] u_def[symmetric] r_def[symmetric])
  then show ?thesis using near exact by blast
qed


lemma round_dbl_int:
  assumes "\<bar>k\<bar> < 2 ^ 49"
  shows "round_dbl (of_int k) = Fin (of_int k)"
proof (cases "k = 0")
  case True
  then show ?thesis by (simp add: round_dbl_def)
next
  case False
  have "(of_int \<bar>k\<bar> :: rat) < of_int (2 ^ 49)" using assms by (simp only: of_int_less_iff)
  then have "\<bar>rat_of_int k\<bar> < 2 ^ 49" by simp
  moreover have "rat_of_int k \<noteq> 0" using False by simp
  ultimately show ?thesis using round_dbl_near[of "of_int k"] by auto
qed

lemma py_float_int: "\<bar>k\<bar> < 2 ^ 49 \<Longrightarrow> py_float (PInt k) = Inr (Fin (of_int k))"
  by (simp add: round_dbl_int)


lemma powi_less_imp: "(2::rat) powi a < 2 powi b \<Longrightarrow> a < b"
proof (rule ccontr)
  assume h: "(2::rat) powi a < 2 powi b" and "\<not> a < b"
  then have "b \<le> a" by simp
  then have "(2::rat) powi b \<le> 2 powi a" by (intro power_int_increasing) auto
  with h show False by simp
qed


lemma rne_ge: "of_int m \<le> x \<Longrightarrow> m \<le> rne x"
proof -
  assume "of_int m \<le> x"
  then have "m \<le> \<lfloor>x\<rfloor>" by (simp add: le_floor_iff)
  then show ?thesis unfolding rne_def Let_def by (simp split: if_splits)
qed

lemma rne_le: "x \<le> of_int m \<Longrightarrow> rne x \<le> m"
proof (cases "x = of_int m")
  case True
  then show ?thesis by (simp add: rne_of_int)
next
  case False
  assume "x \<le> of_int m"
  with False have "x < of_int m" by simp
  then have "\<lfloor>x\<rfloor> < m" by (simp add: floor_less_iff)
  then show ?thesis unfolding rne_def Let_def by (simp split: if_splits)
qed

lemma round_dbl_alt:
  "q \<noteq> 0 \<Longrightarrow> round_dbl q =
     (if 2 powi 1024 \<le> \<bar>nearest q\<bar> then (if 0 < q then PInf else NInf) else Fin (nearest q))"
  by (simp add: round_dbl_def Let_def nearest_def ulp_of_def)

lemma ulp_pos: "0 < ulp_of q"
  by (simp add: ulp_of_def)

lemma nearest_err: "\<bar>nearest q - q\<bar> \<le> ulp_of q / 2"
proof -
  have "nearest q - q = (of_int (rne (q / ulp_of q)) - q / ulp_of q) * ulp_of q"
    using ulp_pos[of q] by (simp add: nearest_def left_diff_distrib)
  then have "\<bar>nearest q - q\<bar> = \<bar>of_int (rne (q / ulp_of q)) - q / ulp_of q\<bar> * ulp_of q"
    using ulp_pos[of q] by (simp only: abs_mult abs_of_pos)
  also have "\<dots> \<le> (1 / 2) * ulp_of q"
    using rne_err[of "q / ulp_of q"] ulp_pos[of q] by (intro mult_right_mono) auto
  finally show ?thesis by simp
qed

text \<open>Rounding never crosses a multiple of a power of two that is at least the spacing.\<close>

lemma grid_int:
  assumes "max (ilog2 q) (- 1022) - 52 \<le> j"
  shows "\<exists>K::int. of_int N * 2 powi j / ulp_of q = of_int K"
proof -
  define d where "d = j - (max (ilog2 q) (- 1022) - 52)"
  have d0: "0 \<le> d" using assms by (simp add: d_def)
  have "(2::rat) powi j / ulp_of q = 2 powi d" by (simp add: ulp_of_def d_def power_int_diff)
  also have "\<dots> = of_int (2 ^ nat d)" using d0 by (simp add: power_int_def)
  finally have "(2::rat) powi j / ulp_of q = of_int (2 ^ nat d)" .
  then have "of_int N * 2 powi j / ulp_of q = of_int N * of_int (2 ^ nat d)"
    by (metis times_divide_eq_right)
  also have "\<dots> = of_int (N * 2 ^ nat d)" by simp
  finally show ?thesis by blast
qed

lemma nearest_le:
  assumes "q \<le> of_int N * 2 powi j" and "max (ilog2 q) (- 1022) - 52 \<le> j"
  shows "nearest q \<le> of_int N * 2 powi j"
proof -
  obtain K :: int where K: "of_int N * 2 powi j / ulp_of q = of_int K"
    using grid_int[OF assms(2)] by blast
  have "q / ulp_of q \<le> of_int N * 2 powi j / ulp_of q"
    using assms(1) ulp_pos[of q] by (simp add: divide_right_mono)
  then have "rne (q / ulp_of q) \<le> K" unfolding K by (rule rne_le)
  then have "rat_of_int (rne (q / ulp_of q)) \<le> of_int K" by (simp only: of_int_le_iff)
  then have "nearest q \<le> of_int K * ulp_of q"
    unfolding nearest_def using ulp_pos[of q] by (simp add: mult_right_mono)
  also have "\<dots> = of_int N * 2 powi j" using K ulp_pos[of q] by (simp add: field_simps)
  finally show ?thesis .
qed

lemma nearest_ge:
  assumes "of_int N * 2 powi j \<le> q" and "max (ilog2 q) (- 1022) - 52 \<le> j"
  shows "of_int N * 2 powi j \<le> nearest q"
proof -
  obtain K :: int where K: "of_int N * 2 powi j / ulp_of q = of_int K"
    using grid_int[OF assms(2)] by blast
  have "of_int N * 2 powi j / ulp_of q \<le> q / ulp_of q"
    using assms(1) ulp_pos[of q] by (simp add: divide_right_mono)
  then have "K \<le> rne (q / ulp_of q)" unfolding K by (rule rne_ge)
  then have "rat_of_int K \<le> of_int (rne (q / ulp_of q))" by (simp only: of_int_le_iff)
  then have "of_int K * ulp_of q \<le> nearest q"
    unfolding nearest_def using ulp_pos[of q] by (simp add: mult_right_mono)
  moreover have "of_int K * ulp_of q = of_int N * 2 powi j" using K ulp_pos[of q] by (simp add: field_simps)
  ultimately show ?thesis by simp
qed

lemma ulp_half_bound: "q \<noteq> 0 \<Longrightarrow> ulp_of q / 2 \<le> \<bar>q\<bar> / 2 ^ 53 + 1 / 2 ^ 1075"
proof (cases "- 1022 \<le> ilog2 q")
  case True
  assume q0: "q \<noteq> 0"
  have "ulp_of q / 2 = 2 powi (ilog2 q - 52) / 2 powi 1" using True by (simp add: ulp_of_def max_def)
  also have "\<dots> = 2 powi (ilog2 q - 53)" by (simp add: power_int_diff[symmetric] del: power_int_1_right)
  also have "\<dots> = 2 powi (ilog2 q) / 2 powi 53" by (simp add: power_int_diff)
  also have "\<dots> = 2 powi (ilog2 q) / 2 ^ 53" by (simp add: power_int_def)
  also have "\<dots> \<le> \<bar>q\<bar> / 2 ^ 53" using ilog2_le[OF q0] by (simp add: divide_right_mono)
  finally show ?thesis by simp
next
  case False
  then have u: "ulp_of q = 2 powi (- 1074)" by (simp add: ulp_of_def max_def)
  have "(2::rat) powi (- 1074 - 1) = 2 powi (- 1074) / 2 powi 1" by (rule power_int_diff) simp
  then have "ulp_of q / 2 = 2 powi (- 1075)" unfolding u by simp
  also have "\<dots> = 1 / 2 ^ 1075" by (simp add: power_int_def power_divide)
  finally show ?thesis by simp
qed

lemma max_double_powi: "max_double = of_int (2 ^ 53 - 1) * 2 powi 971"
  by (simp add: max_double_def power_int_def)

lemma max_double_less: "max_double < 2 powi 1024"
proof -
  have "max_double < 2 ^ 53 * 2 ^ 971" unfolding max_double_def by (intro mult_strict_right_mono) auto
  also have "\<dots> = (2::rat) ^ 1024" by (simp add: power_add[symmetric])
  finally show ?thesis by (simp add: power_int_def)
qed

lemma ilog2_le_of_less:
  assumes "q \<noteq> 0" and "\<bar>q\<bar> < 2 powi k"
  shows "ilog2 q < k"
proof -
  have "(2::rat) powi ilog2 q < 2 powi k" using ilog2_le[OF assms(1)] assms(2) by simp
  then show ?thesis by (rule powi_less_imp)
qed

lemma round_dbl_finite:
  assumes "\<bar>q\<bar> \<le> max_double"
  shows "\<exists>r. round_dbl q = Fin r \<and> \<bar>r - q\<bar> \<le> \<bar>q\<bar> / 2 ^ 53 + 1 / 2 ^ 1075
           \<and> \<bar>r\<bar> \<le> max_double \<and> (0 \<le> q \<longrightarrow> 0 \<le> r)"
proof (cases "q = 0")
  case True
  then show ?thesis by (simp add: round_dbl_def max_double_def)
next
  case False
  have "\<bar>q\<bar> < 2 powi 1024" using assms max_double_less by simp
  then have e: "ilog2 q < 1024" using ilog2_le_of_less[OF False] by simp
  then have j: "max (ilog2 q) (- 1022) - 52 \<le> 971" by simp
  have up: "nearest q \<le> max_double"
    unfolding max_double_powi
  proof (rule nearest_le)
    show "q \<le> rat_of_int (2 ^ 53 - 1) * 2 powi 971" using assms unfolding max_double_powi by simp
    show "max (ilog2 q) (- 1022) - 52 \<le> 971" by (rule j)
  qed
  have "rat_of_int (- (2 ^ 53 - 1)) * 2 powi 971 \<le> nearest q"
  proof (rule nearest_ge)
    have "- max_double \<le> q" using assms by simp
    then show "rat_of_int (- (2 ^ 53 - 1)) * 2 powi 971 \<le> q" unfolding max_double_powi by simp
    show "max (ilog2 q) (- 1022) - 52 \<le> 971" by (rule j)
  qed
  then have lo: "- max_double \<le> nearest q" unfolding max_double_powi by simp
  from up lo have ab: "\<bar>nearest q\<bar> \<le> max_double" by simp
  then have "\<not> 2 powi 1024 \<le> \<bar>nearest q\<bar>" using max_double_less by simp
  then have r: "round_dbl q = Fin (nearest q)" by (simp add: round_dbl_alt[OF False])
  have err: "\<bar>nearest q - q\<bar> \<le> \<bar>q\<bar> / 2 ^ 53 + 1 / 2 ^ 1075"
    using nearest_err[of q] ulp_half_bound[OF False] by simp
  have nn: "0 \<le> nearest q" if "0 \<le> q"
  proof -
    have "rat_of_int 0 * 2 powi (max (ilog2 q) (- 1022) - 52) \<le> nearest q"
      by (rule nearest_ge) (use that in simp_all)
    then show ?thesis by simp
  qed
  from r err ab nn show ?thesis by blast
qed

lemma round_dbl_le_pow:
  assumes "\<bar>q\<bar> \<le> max_double" and "q \<le> 2 ^ k" and "round_dbl q = Fin r"
  shows "r \<le> 2 ^ k"
proof (cases "q = 0")
  case True
  with assms(3) show ?thesis by (simp add: round_dbl_def)
next
  case False
  from round_dbl_finite[OF assms(1)] assms(3) have r: "r = nearest q"
    using round_dbl_alt[OF False] by (auto split: if_splits)
  show ?thesis
  proof (cases "0 < q")
    case True
    have "(2::rat) powi ilog2 q \<le> 2 powi (int k)"
      using ilog2_le[OF False] assms(2) True by (simp add: power_int_def)
    also have "\<dots> < 2 powi (int k + 1)" by (intro power_int_strict_increasing) auto
    finally have "ilog2 q < int k + 1" by (rule powi_less_imp)
    then have j: "max (ilog2 q) (- 1022) - 52 \<le> int k" by simp
    have "nearest q \<le> rat_of_int 1 * 2 powi (int k)"
      by (rule nearest_le) (use assms(2) j in \<open>simp_all add: power_int_def\<close>)
    then show ?thesis by (simp add: r power_int_def)
  next
    case F: False
    have "nearest q \<le> rat_of_int 0 * 2 powi (max (ilog2 q) (- 1022) - 52)"
      by (rule nearest_le) (use F in simp_all)
    then have "nearest q \<le> 0" by simp
    moreover have "(0::rat) \<le> 2 ^ k" by simp
    ultimately show ?thesis unfolding r by linarith
  qed
qed



subsection \<open>Evaluating the rounding at given numbers\<close>









lemma round_ten: "round_dbl 10 = Fin 10"
  using round_dbl_int[of 10] by simp





subsection \<open>The error of the rescaling functions\<close>

lemma pow_le_max_double: "(2::rat) ^ 1020 \<le> max_double" and ten_pow_le_max_double: "10 * (2::rat) ^ 1020 \<le> max_double"
  by (simp_all add: max_double_def)

lemma err_chain:
  fixes P X p1 r h :: rat
  assumes "0 \<le> P" "0 \<le> h"
    and "\<bar>X - P\<bar> \<le> P / 2 ^ 53 + 10 * h"
    and "\<bar>p1 - X\<bar> \<le> \<bar>X\<bar> / 2 ^ 53 + h"
    and "\<bar>r - p1 / 10\<bar> \<le> \<bar>p1 / 10\<bar> / 2 ^ 53 + h"
  shows "\<bar>r - P / 10\<bar> \<le> P / 10 / 2 ^ 51 + 4 * h"
  using assms by (simp add: abs_le_iff abs_if split: if_splits)


lemma py_float_level:
  assumes "num_val L = Some lv" "0 \<le> lv" "lv \<le> 10"
  shows "py_float L = Inr (Fin lv)"
proof (cases L)
  case (PInt i)
  with assms have lv: "lv = of_int i" by (simp add: num_val_def)
  with assms have "0 \<le> i" "i \<le> 10" by simp_all
  then have "\<bar>i\<bar> < 2 ^ 49" by simp
  then have "py_float (PInt i) = Inr (Fin (of_int i))" by (rule py_float_int)
  then show ?thesis using PInt lv by (simp only:)
next
  case (PFloat f)
  with assms(1) show ?thesis by (cases f) (simp_all add: num_val_def)
qed

lemma py_float_max:
  assumes "num_val M = Some mv" "0 \<le> mv" "mv \<le> 2 ^ 1020"
  shows "\<exists>m1. py_float M = Inr (Fin m1) \<and> \<bar>m1 - mv\<bar> \<le> mv / 2 ^ 53 + 1 / 2 ^ 1075
           \<and> 0 \<le> m1 \<and> m1 \<le> 2 ^ 1020"
proof (cases M)
  case (PInt i)
  with assms have mv: "mv = of_int i" by (simp add: num_val_def)
  have a: "\<bar>rat_of_int i\<bar> \<le> max_double" using assms(2,3) pow_le_max_double unfolding mv by simp
  from round_dbl_finite[OF a] obtain r where r: "round_dbl (of_int i) = Fin r"
    "\<bar>r - of_int i\<bar> \<le> \<bar>rat_of_int i\<bar> / 2 ^ 53 + 1 / 2 ^ 1075" "0 \<le> rat_of_int i \<longrightarrow> 0 \<le> r"
    by blast
  have le: "r \<le> 2 ^ 1020" by (rule round_dbl_le_pow[OF a assms(3)[unfolded mv] r(1)])
  have ab: "\<bar>rat_of_int i\<bar> = of_int i" using assms(2) unfolding mv by simp
  have pf: "py_float M = Inr (Fin r)" unfolding PInt by (simp add: r(1))
  have er: "\<bar>r - mv\<bar> \<le> mv / 2 ^ 53 + 1 / 2 ^ 1075" using r(2) unfolding ab mv .
  have nn: "0 \<le> r" using r(3) assms(2) unfolding mv by blast
  from pf er nn le have "py_float M = Inr (Fin r) \<and> \<bar>r - mv\<bar> \<le> mv / 2 ^ 53 + 1 / 2 ^ 1075 \<and> 0 \<le> r \<and> r \<le> 2 ^ 1020"
    by (intro conjI)
  then show ?thesis by (rule exI)
next
  case (PFloat f)
  with assms(1) have f: "f = Fin mv" by (cases f) (simp_all add: num_val_def)
  have "py_float M = Inr (Fin mv) \<and> \<bar>mv - mv\<bar> \<le> mv / 2 ^ 53 + 1 / 2 ^ 1075 \<and> 0 \<le> mv \<and> mv \<le> 2 ^ 1020"
    using assms(2,3) PFloat f by simp
  then show ?thesis by (rule exI)
qed

lemma float_pipeline:
  assumes lv: "0 \<le> lv" "lv \<le> 10"
    and m1: "\<bar>m1 - mv\<bar> \<le> mv / 2 ^ 53 + 1 / 2 ^ 1075" "0 \<le> m1" "m1 \<le> 2 ^ 1020" and mv: "0 \<le> mv"
  shows "\<exists>p1 r. round_dbl (lv * m1) = Fin p1 \<and> round_dbl (p1 / 10) = Fin r \<and> 0 \<le> r
           \<and> \<bar>r - lv * mv / 10\<bar> \<le> lv * mv / 10 / 2 ^ 51 + 1 / 2 ^ 1073"
proof -
  define h :: rat where "h = 1 / 2 ^ 1075"
  have h0: "0 \<le> h" by (simp add: h_def)
  have x0: "0 \<le> lv * m1" using lv(1) m1(2) by simp
  have "lv * m1 \<le> 10 * 2 ^ 1020" using lv m1(2,3) by (intro mult_mono) auto
  then have xa: "\<bar>lv * m1\<bar> \<le> max_double" using x0 ten_pow_le_max_double by simp
  from round_dbl_finite[OF xa] obtain p1 where p1: "round_dbl (lv * m1) = Fin p1"
    "\<bar>p1 - lv * m1\<bar> \<le> \<bar>lv * m1\<bar> / 2 ^ 53 + 1 / 2 ^ 1075" "\<bar>p1\<bar> \<le> max_double" "0 \<le> p1"
    using x0 by blast
  have ya: "\<bar>p1 / 10\<bar> \<le> max_double" using p1(3) by simp
  from round_dbl_finite[OF ya] obtain r where r: "round_dbl (p1 / 10) = Fin r"
    "\<bar>r - p1 / 10\<bar> \<le> \<bar>p1 / 10\<bar> / 2 ^ 53 + 1 / 2 ^ 1075" "0 \<le> r"
    using p1(4) by auto
  have "\<bar>lv * m1 - lv * mv\<bar> = lv * \<bar>m1 - mv\<bar>"
    using lv(1) by (simp add: right_diff_distrib[symmetric] abs_mult)
  also have "\<dots> \<le> lv * (mv / 2 ^ 53 + h)" using m1(1) lv(1) unfolding h_def by (rule mult_left_mono)
  also have "\<dots> = lv * mv / 2 ^ 53 + lv * h" by (simp add: distrib_left)
  also have "\<dots> \<le> lv * mv / 2 ^ 53 + 10 * h" using lv(2) h0 by (simp add: mult_right_mono)
  finally have e1: "\<bar>lv * m1 - lv * mv\<bar> \<le> lv * mv / 2 ^ 53 + 10 * h" .
  have P0: "0 \<le> lv * mv" using lv(1) mv by simp
  have "\<bar>r - lv * mv / 10\<bar> \<le> lv * mv / 10 / 2 ^ 51 + 4 * h"
    by (rule err_chain[OF P0 h0 e1]) (use p1(2) r(2) in \<open>simp_all add: h_def\<close>)
  moreover have "4 * h = 1 / 2 ^ 1073" by (simp add: h_def)
  ultimately have "\<bar>r - lv * mv / 10\<bar> \<le> lv * mv / 10 / 2 ^ 51 + 1 / 2 ^ 1073" by simp
  with p1(1) r(1) r(3) show ?thesis by blast
qed

lemma py_mul_float:
  "py_float x = Inr fx \<Longrightarrow> py_float y = Inr fy \<Longrightarrow> (\<forall>a b. \<not> (x = PInt a \<and> y = PInt b))
     \<Longrightarrow> py_mul x y = Inr (PFloat (fmul fx fy))"
  by (cases x; cases y) simp_all

lemma truediv_ten_float:
  "round_dbl (p1 / 10) = Fin r \<Longrightarrow> py_truediv (PFloat (Fin p1)) param_max_default = Inr (PFloat (Fin r))"
  by (simp add: param_max_default_def round_ten)

lemma small_err_weaken:
  fixes w q :: rat
  assumes "0 \<le> q" "\<bar>w - q\<bar> \<le> \<bar>q\<bar> / 2 ^ 53 + 1 / 2 ^ 1075"
  shows "\<bar>w - q\<bar> \<le> q / 2 ^ 51 + 1 / 2 ^ 1073"
proof -
  have "\<bar>q\<bar> / 2 ^ 53 \<le> q / 2 ^ 51" using assms(1) by simp
  moreover have "(1::rat) / 2 ^ 1075 \<le> 1 / 2 ^ 1073" by simp
  ultimately show ?thesis using assms(2) by linarith
qed

lemma rescale_float_err:
  assumes "num_val L = Some lv" "num_val M = Some mv" "0 \<le> lv" "lv \<le> 10" "0 \<le> mv" "mv \<le> 2 ^ 1020"
  shows "\<exists>v. rescale_float L M param_max_default = Inr (PFloat (Fin v))
           \<and> \<bar>v - lv * mv / 10\<bar> \<le> lv * mv / 10 / 2 ^ 51 + 1 / 2 ^ 1073"
proof -
  have L: "py_float L = Inr (Fin lv)" by (rule py_float_level[OF assms(1,3,4)])
  from py_float_max[OF assms(2,5,6)] obtain m1 where m1: "py_float M = Inr (Fin m1)"
    "\<bar>m1 - mv\<bar> \<le> mv / 2 ^ 53 + 1 / 2 ^ 1075" "0 \<le> m1" "m1 \<le> 2 ^ 1020" by blast
  from float_pipeline[OF assms(3,4) m1(2,3,4) assms(5)] obtain p1 r where
    pr: "round_dbl (lv * m1) = Fin p1" "round_dbl (p1 / 10) = Fin r"
      "\<bar>r - lv * mv / 10\<bar> \<le> lv * mv / 10 / 2 ^ 51 + 1 / 2 ^ 1073" by blast
  have "py_mul (PFloat (Fin lv)) M = Inr (PFloat (fmul (Fin lv) (Fin m1)))"
    by (rule py_mul_float) (simp_all add: m1(1))
  then have mul: "py_mul (PFloat (Fin lv)) M = Inr (PFloat (Fin p1))" by (simp add: pr(1))
  have "rescale_float L M param_max_default = Inr (PFloat (Fin r))"
    unfolding rescale_float_def L by (simp add: mul truediv_ten_float[OF pr(2)] del: py_mul.simps py_truediv.simps)
  with pr(3) show ?thesis by blast
qed

lemma rescale_int_err:
  assumes "num_val L = Some lv" "num_val M = Some mv" "0 \<le> lv" "lv \<le> 10" "0 \<le> mv" "mv \<le> 2 ^ 1020"
  shows "\<exists>w. rescale_int L M param_max_default = Inr (PInt \<lfloor>w\<rfloor>)
           \<and> \<bar>w - lv * mv / 10\<bar> \<le> lv * mv / 10 / 2 ^ 51 + 1 / 2 ^ 1073"
proof (cases "\<exists>a b. L = PInt a \<and> M = PInt b")
  case True
  then obtain a b where ab: "L = PInt a" "M = PInt b" by blast
  with assms(1,2) have v: "lv = of_int a" "mv = of_int b" by (simp_all add: num_val_def)
  define q where "q = rat_of_int (a * b) / 10"
  have q: "q = lv * mv / 10" by (simp add: q_def v)
  have q0: "0 \<le> q" unfolding q using assms(3,5) by simp
  have "lv * mv \<le> 10 * 2 ^ 1020" using assms(3,4,5,6) by (intro mult_mono) auto
  then have "q \<le> 2 ^ 1020" unfolding q by simp
  then have qa: "\<bar>q\<bar> \<le> max_double" using q0 pow_le_max_double by simp
  from round_dbl_finite[OF qa] obtain w where w: "round_dbl q = Fin w"
    "\<bar>w - q\<bar> \<le> \<bar>q\<bar> / 2 ^ 53 + 1 / 2 ^ 1075" "0 \<le> w" using q0 by blast
  have "rescale_int L M param_max_default = Inr (PInt \<lfloor>w\<rfloor>)"
    unfolding ab rescale_int_def param_max_default_def
    using w(1) w(3) by (simp add: q_def trunc_def del: of_int_mult)
  moreover have "\<bar>w - lv * mv / 10\<bar> \<le> lv * mv / 10 / 2 ^ 51 + 1 / 2 ^ 1073"
    using small_err_weaken[OF q0 w(2)] unfolding q .
  ultimately show ?thesis by blast
next
  case False
  have L: "py_float L = Inr (Fin lv)" by (rule py_float_level[OF assms(1,3,4)])
  from py_float_max[OF assms(2,5,6)] obtain m1 where m1: "py_float M = Inr (Fin m1)"
    "\<bar>m1 - mv\<bar> \<le> mv / 2 ^ 53 + 1 / 2 ^ 1075" "0 \<le> m1" "m1 \<le> 2 ^ 1020" by blast
  from float_pipeline[OF assms(3,4) m1(2,3,4) assms(5)] obtain p1 r where
    pr: "round_dbl (lv * m1) = Fin p1" "round_dbl (p1 / 10) = Fin r" "0 \<le> r"
      "\<bar>r - lv * mv / 10\<bar> \<le> lv * mv / 10 / 2 ^ 51 + 1 / 2 ^ 1073" by blast
  have "py_mul L M = Inr (PFloat (fmul (Fin lv) (Fin m1)))"
    by (rule py_mul_float[OF L m1(1)]) (use False in blast)
  then have mul: "py_mul L M = Inr (PFloat (Fin p1))" by (simp add: pr(1))
  have "rescale_int L M param_max_default = Inr (PInt \<lfloor>r\<rfloor>)"
    unfolding rescale_int_def by (simp add: mul truediv_ten_float[OF pr(2)] trunc_def pr(3) del: py_mul.simps py_truediv.simps)
  with pr(4) show ?thesis by blast
qed

lemma ulp_le:
  assumes "q \<noteq> 0" and "\<bar>q\<bar> < 2 powi k" and "- 1021 \<le> k"
  shows "ulp_of q \<le> 2 powi (k - 53)"
proof -
  have "ilog2 q < k" by (rule ilog2_le_of_less[OF assms(1,2)])
  then have "max (ilog2 q) (- 1022) - 52 \<le> k - 53" using assms(3) by simp
  then show ?thesis unfolding ulp_of_def by (intro power_int_increasing) auto
qed

lemma int_floor_sharp:
  assumes "0 \<le> n" and "n \<le> 10 * 2 ^ 50 + 8"
  shows "\<exists>r. round_dbl (rat_of_int n / 10) = Fin r \<and> 0 \<le> r \<and> \<lfloor>r\<rfloor> = \<lfloor>rat_of_int n / 10\<rfloor>"
proof (cases "n = 0")
  case True
  then show ?thesis by (simp add: round_dbl_def)
next
  case False
  define q where "q = rat_of_int n / 10"
  define k where "k = n div 10"
  define m where "m = n mod 10"
  have m: "0 \<le> m" "m \<le> 9" by (simp_all add: m_def)
  have n: "n = 10 * k + m" by (simp add: k_def m_def)
  have qk: "q = of_int k + of_int m / 10" by (simp add: q_def n)
  have q0: "q \<noteq> 0" and qpos: "0 < q" using False assms(1) by (simp_all add: q_def)
  have kq: "rat_of_int k \<le> q" using m(1) unfolding qk by simp
  have "rat_of_int n \<le> of_int (10 * 2 ^ 50 + 8)" using assms(2) by (simp only: of_int_le_iff)
  then have qlt: "q < 2 ^ 51" by (simp add: q_def)
  then have q52: "\<bar>q\<bar> < 2 powi 52" using qpos by (simp add: power_int_def)
  have "(2::rat) ^ 51 \<le> max_double" by (simp add: max_double_def)
  then have qa: "\<bar>q\<bar> \<le> max_double" using qlt qpos by simp
  from round_dbl_finite[OF qa] obtain r where r: "round_dbl q = Fin r" "0 \<le> q \<longrightarrow> 0 \<le> r" by blast
  then have rn: "r = nearest q" using round_dbl_alt[OF q0] by (auto split: if_splits)
  have e52: "ilog2 q < 52" by (rule ilog2_le_of_less[OF q0 q52])
  have "rat_of_int k * 2 powi 0 \<le> nearest q"
    by (rule nearest_ge) (use kq e52 in simp_all)
  then have lo: "rat_of_int k \<le> r" by (simp add: rn)
  have hi: "r < of_int k + 1"
  proof (cases "q < 2 ^ 50")
    case True
    then have "\<bar>q\<bar> < 2 powi 50" using qpos by (simp add: power_int_def)
    then have "ulp_of q \<le> 2 powi (50 - 53)" using q0 by (intro ulp_le) simp_all
    moreover have "(2::rat) powi (50 - 53) = 1 / 8" by (simp add: power_int_def power_divide)
    ultimately have "ulp_of q / 2 \<le> 1 / 16" by simp
    then have "r \<le> q + 1 / 16" using nearest_err[of q] unfolding rn by linarith
    moreover have "q \<le> of_int k + 9 / 10" using m(2) unfolding qk by simp
    ultimately show ?thesis by linarith
  next
    case F: False
    then have "(2::rat) ^ 50 \<le> of_int n / 10" by (simp add: q_def)
    then have "rat_of_int (10 * 2 ^ 50) \<le> of_int n" by simp
    then have nl: "10 * 2 ^ 50 \<le> n" by (simp only: of_int_le_iff)
    define m' where "m' = n - 10 * 2 ^ 50"
    have m': "0 \<le> m'" "m' \<le> 8" using nl assms(2) by (simp_all add: m'_def)
    have nm: "n = m' + 2 ^ 50 * 10" by (simp add: m'_def)
    have "(m' + 2 ^ 50 * 10) div 10 = 2 ^ 50 + m' div 10" by (rule div_mult_self1) simp
    then have "n div 10 = 2 ^ 50 + m' div 10" using nm by simp
    moreover have "(m' + 2 ^ 50 * 10) mod 10 = m' mod 10" by (rule mod_mult_self1)
    then have "n mod 10 = m' mod 10" using nm by simp
    moreover have "m' div 10 = 0" "m' mod 10 = m'" using m' by simp_all
    ultimately have "k = 2 ^ 50" "m \<le> 8" unfolding k_def m_def using m'(2) by simp_all
    then have qk8: "q \<le> of_int k + 8 / 10" unfolding qk by simp
    have "\<bar>q\<bar> < 2 powi 51" using qlt qpos by (simp add: power_int_def)
    then have "ulp_of q \<le> 2 powi (51 - 53)" using q0 by (intro ulp_le) simp_all
    moreover have "(2::rat) powi (51 - 53) = 1 / 4" by (simp add: power_int_def power_divide)
    ultimately have "ulp_of q / 2 \<le> 1 / 8" by simp
    then have "r \<le> q + 1 / 8" using nearest_err[of q] unfolding rn by linarith
    with qk8 show ?thesis by linarith
  qed
  have fr: "\<lfloor>r\<rfloor> = k" using lo hi by linarith
  have "q < of_int k + 1" using m(2) unfolding qk by simp
  with kq have fq: "\<lfloor>q\<rfloor> = k" by linarith
  have "0 \<le> r" using r(2) qpos by simp
  with r(1) fr fq show ?thesis unfolding q_def by simp
qed

lemma rescale_int_sharp:
  assumes "0 \<le> a * b" and "a * b \<le> 10 * 2 ^ 50 + 8"
  shows "rescale_int (PInt a) (PInt b) param_max_default = Inr (PInt \<lfloor>rat_of_int (a * b) / 10\<rfloor>)"
proof -
  from int_floor_sharp[OF assms] obtain r where
    r: "round_dbl (rat_of_int (a * b) / 10) = Fin r" "0 \<le> r" "\<lfloor>r\<rfloor> = \<lfloor>rat_of_int (a * b) / 10\<rfloor>"
    by blast
  show ?thesis
    unfolding rescale_int_def param_max_default_def using r
    by (simp add: trunc_def del: of_int_mult)
qed


subsection \<open>The executor\<close>















subsection \<open>The registry and the builder\<close>

lemma float_lit_val:
  assumes "0 \<le> q" and "q \<le> 2 ^ 1020"
  shows "\<exists>r. float_lit q = Fin r \<and> 0 \<le> r \<and> r \<le> 2 ^ 1020 \<and> \<bar>r - q\<bar> \<le> q / 2 ^ 53 + 1 / 2 ^ 1075"
proof -
  have a: "\<bar>q\<bar> \<le> max_double" using assms pow_le_max_double by simp
  from round_dbl_finite[OF a] obtain r where r: "round_dbl q = Fin r"
    "\<bar>r - q\<bar> \<le> \<bar>q\<bar> / 2 ^ 53 + 1 / 2 ^ 1075" "0 \<le> q \<longrightarrow> 0 \<le> r" by blast
  have le: "r \<le> 2 ^ 1020" by (rule round_dbl_le_pow[OF a assms(2) r(1)])
  have ab: "\<bar>q\<bar> = q" using assms(1) by simp
  have "float_lit q = Fin r \<and> 0 \<le> r \<and> r \<le> 2 ^ 1020 \<and> \<bar>r - q\<bar> \<le> q / 2 ^ 53 + 1 / 2 ^ 1075"
    using r le assms(1) unfolding ab float_lit_def by blast
  then show ?thesis by (rule exI)
qed

lemma num_val_int: "num_val (PInt i) = Some (of_int i)"
  by (simp add: num_val_def)

lemma num_val_fin: "num_val (PFloat (Fin r)) = Some r"
  by (simp add: num_val_def)

lemma rescale_float_lit_ok:
  assumes "num_val m = Some lv" "0 \<le> lv" "lv \<le> 10" "0 \<le> q" "q \<le> 2 ^ 1020"
  shows "\<exists>v. rescale_float m (PFloat (float_lit q)) param_max_default = Inr (PFloat (Fin v))"
proof -
  from float_lit_val[OF assms(4,5)] obtain r where r: "float_lit q = Fin r" "0 \<le> r" "r \<le> 2 ^ 1020"
    by blast
  from rescale_float_err[OF assms(1) num_val_fin assms(2,3) r(2,3)] show ?thesis
    unfolding r(1) by blast
qed

lemma rescale_int_ok:
  assumes "num_val m = Some lv" "0 \<le> lv" "lv \<le> 10" "0 \<le> b" "rat_of_int b \<le> 2 ^ 1020"
  shows "\<exists>i. rescale_int m (PInt b) param_max_default = Inr (PInt i)"
proof -
  have "0 \<le> rat_of_int b" using assms(4) by simp
  from rescale_int_err[OF assms(1) num_val_int assms(2,3) this assms(5)] show ?thesis by blast
qed

lemma reparam_ok:
  assumes "num_val m = Some lv" "0 \<le> lv" "lv \<le> 10"
  shows "\<exists>v. reparam_shear m = Inr v" "\<exists>v. reparam_translate m = Inr v"
    "\<exists>v. reparam_rotate m = Inr v" "\<exists>v. reparam_solarize m = Inr v"
    "\<exists>v. reparam_posterize m = Inr v" "\<exists>v. reparam_enhance m = Inr v"
proof -
  have small: "rat_of_int 10 \<le> 2 ^ 1020" "rat_of_int 30 \<le> 2 ^ 1020" "rat_of_int 256 \<le> 2 ^ 1020"
    "rat_of_int 4 \<le> 2 ^ 1020" "(3 / 10 :: rat) \<le> 2 ^ 1020" "(18 / 10 :: rat) \<le> 2 ^ 1020"
    by simp_all
  show "\<exists>v. reparam_shear m = Inr v"
    using rescale_float_lit_ok[OF assms _ small(5)] unfolding reparam_shear_def by auto
  show "\<exists>v. reparam_translate m = Inr v"
    using rescale_int_ok[OF assms _ small(1)] unfolding reparam_translate_def by auto
  show "\<exists>v. reparam_rotate m = Inr v"
    using rescale_int_ok[OF assms _ small(2)] unfolding reparam_rotate_def by auto
  from rescale_int_ok[OF assms _ small(3)] obtain i where
    "rescale_int m (PInt 256) param_max_default = Inr (PInt i)" by auto
  then show "\<exists>v. reparam_solarize m = Inr v" unfolding reparam_solarize_def by simp
  from rescale_int_ok[OF assms _ small(4)] obtain j where
    "rescale_int m (PInt 4) param_max_default = Inr (PInt j)" by auto
  then show "\<exists>v. reparam_posterize m = Inr v" unfolding reparam_posterize_def by simp
  from rescale_float_lit_ok[OF assms _ small(6)] obtain v where
    "rescale_float m (PFloat (float_lit (18 / 10))) param_max_default = Inr (PFloat (Fin v))" by auto
  then show "\<exists>v. reparam_enhance m = Inr v" unfolding reparam_enhance_def by simp
qed

lemma init_ok: "prob_in_unit pr \<Longrightarrow> RandomTransform_init pr = Inr pr"
  by (simp add: RandomTransform_init_def)

lemma init_bad: "\<not> prob_in_unit pr \<Longrightarrow> RandomTransform_init pr = Inl InvalidParameter"
  by (simp add: RandomTransform_init_def)

lemmas init_defs = AutoAugmentAffine_init_def ShearX_init_def ShearY_init_def TranslateX_init_def
  TranslateY_init_def Rotate_init_def Posterize_init_def Solarize_init_def Saturation_init_def
  Contrast_init_def Brightness_init_def Sharpness_init_def Invert_init_def AutoContrast_init_def
  Equalize_init_def

lemma registry_entries:
  assumes "autoaugment_map a = Some (c, f)"
  shows "(f = Some reparam_shear \<and> c \<in> {ShearX_cls, ShearY_cls})
       \<or> (f = Some reparam_translate \<and> c \<in> {TranslateX_cls, TranslateY_cls})
       \<or> (f = Some reparam_rotate \<and> c = Rotate_cls)
       \<or> (f = Some reparam_solarize \<and> c = Solarize_cls)
       \<or> (f = Some reparam_posterize \<and> c = Posterize_cls)
       \<or> (f = Some reparam_enhance \<and> c \<in> {Contrast_cls, Saturation_cls, Brightness_cls, Sharpness_cls})
       \<or> (f = None \<and> c \<in> {Invert_cls, AutoContrast_cls, Equalize_cls})"
proof -
  from assms have "(a, (c, f)) \<in> set
     [(''ShearX'', (ShearX_cls, Some reparam_shear)),
      (''ShearY'', (ShearY_cls, Some reparam_shear)),
      (''TranslateX'', (TranslateX_cls, Some reparam_translate)),
      (''TranslateY'', (TranslateY_cls, Some reparam_translate)),
      (''Rotate'', (Rotate_cls, Some reparam_rotate)),
      (''Solarize'', (Solarize_cls, Some reparam_solarize)),
      (''Posterize'', (Posterize_cls, Some reparam_posterize)),
      (''Contrast'', (Contrast_cls, Some reparam_enhance)),
      (''Color'', (Saturation_cls, Some reparam_enhance)),
      (''Brightness'', (Brightness_cls, Some reparam_enhance)),
      (''Sharpness'', (Sharpness_cls, Some reparam_enhance)),
      (''Invert'', (Invert_cls, None)),
      (''AutoContrast'', (AutoContrast_cls, None)),
      (''Equalize'', (Equalize_cls, None))]"
    unfolding autoaugment_map_def by (rule map_of_SomeD)
  then show ?thesis by (simp only: list.set insert_iff empty_iff prod.inject) blast
qed

lemma call_magnitude_ok:
  assumes "prob_in_unit pr"
    and "c \<notin> {Invert_cls, AutoContrast_cls, Equalize_cls}"
  shows "\<exists>t. call_magnitude c v pr = Inr t"
  using assms by (cases c) (simp_all add: init_defs init_ok)

lemma call_prob_ok:
  assumes "prob_in_unit pr" and "c \<in> {Invert_cls, AutoContrast_cls, Equalize_cls}"
  shows "\<exists>t. call_prob c pr = Inr t"
  using assms by (cases c) (simp_all add: init_defs init_ok)

lemma make_transform_unknown:
  "autoaugment_map a = None \<Longrightarrow> make_transform (a, pr, m) = Inl (KeyError a)"
  by simp

lemma make_transform_ok:
  assumes wf: "wf_triple (a, pr, m)" and known: "autoaugment_map a \<noteq> None"
  shows "\<exists>t. make_transform (a, pr, m) = Inr t"
proof -
  from wf obtain lv where p: "prob_in_unit pr" and lv: "num_val m = Some lv" "0 \<le> lv" "lv \<le> 10"
    by (auto simp: wf_triple_def split: option.splits)
  from known obtain c f where cf: "autoaugment_map a = Some (c, f)" by (cases "autoaugment_map a") auto
  note rp = reparam_ok[OF lv]
  show ?thesis
  proof (cases f)
    case None
    with registry_entries[OF cf] have "c \<in> {Invert_cls, AutoContrast_cls, Equalize_cls}" by simp
    from call_prob_ok[OF p this] show ?thesis using cf None by simp
  next
    case (Some g)
    with registry_entries[OF cf] have c: "c \<notin> {Invert_cls, AutoContrast_cls, Equalize_cls}"
      and g: "g \<in> {reparam_shear, reparam_translate, reparam_rotate, reparam_solarize,
                   reparam_posterize, reparam_enhance}"
      by auto
    from g rp obtain v where v: "g m = Inr v" by auto
    from call_magnitude_ok[OF p c, of v] show ?thesis using cf Some v by simp
  qed
qed

lemma find_app:
  "find P (xs @ ys) = (case find P xs of None \<Rightarrow> find P ys | Some x \<Rightarrow> Some x)"
  by (induction xs) simp_all

lemma build_sub_pol_first:
  assumes "list_all wf_triple ts"
  shows "(find unknown_op ts = None \<longrightarrow> (\<exists>r. build_sub_pol ts acc = Inr r))
       \<and> (\<forall>t. find unknown_op ts = Some t \<longrightarrow> build_sub_pol ts acc = Inl (KeyError (fst t)))"
  using assms
proof (induction ts arbitrary: acc)
  case Nil
  show ?case by simp
next
  case (Cons t ts)
  obtain a pr m where t: "t = (a, pr, m)" by (cases t)
  from Cons.prems have wf: "wf_triple (a, pr, m)" and rest: "list_all wf_triple ts" by (simp_all add: t)
  show ?case
  proof (cases "autoaugment_map a = None")
    case True
    then have "unknown_op t" by (simp add: unknown_op_def t)
    moreover have "build_sub_pol (t # ts) acc = Inl (KeyError a)" using True by (simp add: t)
    ultimately show ?thesis by (simp add: t)
  next
    case False
    then have nu: "\<not> unknown_op t" by (simp add: unknown_op_def t)
    from make_transform_ok[OF wf False] obtain tr where tr: "make_transform (a, pr, m) = Inr tr" by blast
    have step: "build_sub_pol (t # ts) acc = build_sub_pol ts (acc @ [tr])" by (simp add: t tr del: make_transform.simps)
    have fnd: "find unknown_op (t # ts) = find unknown_op ts" using nu by simp
    show ?thesis unfolding step fnd by (rule Cons.IH[OF rest])
  qed
qed

lemma build_policy_first:
  assumes "list_all wf_triple (concat table)"
  shows "(find unknown_op (concat table) = None \<longrightarrow> (\<exists>r. build_policy table acc = Inr r))
       \<and> (\<forall>t. find unknown_op (concat table) = Some t \<longrightarrow> build_policy table acc = Inl (KeyError (fst t)))"
  using assms
proof (induction table arbitrary: acc)
  case Nil
  show ?case by simp
next
  case (Cons sp rest)
  from Cons.prems have wf1: "list_all wf_triple sp" and wf2: "list_all wf_triple (concat rest)" by simp_all
  note inner = build_sub_pol_first[OF wf1, of "[]"]
  show ?case
  proof (cases "find unknown_op sp")
    case None
    with inner obtain r where r: "build_sub_pol sp [] = Inr r" by blast
    have step: "build_policy (sp # rest) acc = build_policy rest (acc @ [r])" by (simp add: r)
    have fnd: "find unknown_op (concat (sp # rest)) = find unknown_op (concat rest)"
      by (simp add: find_app None)
    show ?thesis unfolding step fnd by (rule Cons.IH[OF wf2])
  next
    case (Some t)
    with inner have f: "build_sub_pol sp [] = Inl (KeyError (fst t))" by blast
    have step: "build_policy (sp # rest) acc = Inl (KeyError (fst t))" by (simp add: f)
    have fnd: "find unknown_op (concat (sp # rest)) = Some t" by (simp add: find_app Some)
    show ?thesis unfolding step fnd by simp
  qed
qed

lemma build_sub_pol_all:
  "build_sub_pol ts acc = Inr r \<Longrightarrow> t \<in> set ts \<Longrightarrow> \<exists>tr. make_transform t = Inr tr"
proof (induction ts arbitrary: acc)
  case Nil
  then show ?case by simp
next
  case (Cons x xs)
  show ?case
  proof (cases "make_transform x")
    case (Inl e)
    with Cons.prems(1) show ?thesis by simp
  next
    case (Inr tr)
    with Cons.prems(1) have rest: "build_sub_pol xs (acc @ [tr]) = Inr r" by simp
    show ?thesis
    proof (cases "t = x")
      case True
      with Inr show ?thesis by blast
    next
      case False
      with Cons.prems(2) have "t \<in> set xs" by simp
      with Cons.IH[OF rest] show ?thesis by blast
    qed
  qed
qed

lemma build_policy_all:
  "build_policy table acc = Inr r \<Longrightarrow> t \<in> set (concat table) \<Longrightarrow> \<exists>tr. make_transform t = Inr tr"
proof (induction table arbitrary: acc)
  case Nil
  then show ?case by simp
next
  case (Cons sp rest)
  show ?case
  proof (cases "build_sub_pol sp []")
    case (Inl e)
    with Cons.prems(1) show ?thesis by simp
  next
    case (Inr s)
    with Cons.prems(1) have r: "build_policy rest (acc @ [s]) = Inr r" by simp
    show ?thesis
    proof (cases "t \<in> set sp")
      case True
      with build_sub_pol_all[OF Inr] show ?thesis by blast
    next
      case False
      with Cons.prems(2) have "t \<in> set (concat rest)" by simp
      with Cons.IH[OF r] show ?thesis by blast
    qed
  qed
qed

lemma prob_unit_int: "prob_in_unit (PInt 1)" "prob_in_unit (PInt 0)" "\<not> prob_in_unit (PInt 2)"
  by (simp_all add: prob_in_unit_def)

lemma rescale_int_50_4: "rescale_int (PInt 50) (PInt 4) param_max_default = Inr (PInt 20)"
proof -
  have "rescale_int (PInt 50) (PInt 4) param_max_default = Inr (PInt \<lfloor>rat_of_int (50 * 4) / 10\<rfloor>)"
    by (rule rescale_int_sharp) simp_all
  then show ?thesis by simp
qed

lemma rescale_int_50_30: "rescale_int (PInt 50) (PInt 30) param_max_default = Inr (PInt 150)"
proof -
  have "rescale_int (PInt 50) (PInt 30) param_max_default = Inr (PInt \<lfloor>rat_of_int (50 * 30) / 10\<rfloor>)"
    by (rule rescale_int_sharp) simp_all
  then show ?thesis by simp
qed

lemma make_transform_bad_prob:
  assumes lv: "num_val m = Some lv" "0 \<le> lv" "lv \<le> 10"
    and known: "autoaugment_map a \<noteq> None" and bad: "\<not> prob_in_unit pr"
  shows "make_transform (a, pr, m) = Inl InvalidParameter"
proof -
  from known obtain c f where cf: "autoaugment_map a = Some (c, f)" by (cases "autoaugment_map a") auto
  note rp = reparam_ok[OF lv]
  show ?thesis
  proof (cases f)
    case None
    with registry_entries[OF cf] have "c \<in> {Invert_cls, AutoContrast_cls, Equalize_cls}" by simp
    then have "call_prob c pr = Inl InvalidParameter"
      using bad by (cases c) (simp_all add: init_defs init_bad)
    then show ?thesis using cf None by simp
  next
    case (Some g)
    with registry_entries[OF cf] have c: "c \<notin> {Invert_cls, AutoContrast_cls, Equalize_cls}"
      and g: "g \<in> {reparam_shear, reparam_translate, reparam_rotate, reparam_solarize,
                   reparam_posterize, reparam_enhance}"
      by auto
    from g rp obtain v where v: "g m = Inr v" by auto
    from c have "call_magnitude c v pr = Inl InvalidParameter"
      using bad by (cases c) (simp_all add: init_defs init_bad)
    then show ?thesis using cf Some v by simp
  qed
qed

section \<open>Claims\<close>

text \<open>
  C1. The claim: for every TranslateY instance, \<open>sample()\<close> returns a parameter record whose
  \<open>translate_y\<close> entry is the instance's own magnitude, sign possibly flipped, and never
  fails. The code: for every TranslateY instance, whatever its magnitude, mirror flag,
  resample filter and probability, and whatever the generator delivers, \<open>sample()\<close> raises
  NameError on the unbound name \<open>trans_x\<close> and returns no record at all.
\<close>

theorem TranslateY_sample_raises:
  "sample (TranslateY v mir rs pr) g = Inl (NameError ''trans_x'')"
proof -
  obtain w g' where "AutoAugmentAffine_mirror mir v g = Inr (w, g')"
    using mirror_total by blast
  then show ?thesis by simp
qed




text \<open>
  C5. A table with a triple whose operation name is not a key of the registry is never
  built: \<open>autoaugment_map[augment]\<close> raises and the loops return nothing, neither a partial
  table nor one with the triple left out or replaced. On a table of the data model
  (probabilities in \<open>[0, 1]\<close>, levels in \<open>[0, 10]\<close>) the exception is the KeyError carrying
  the first unknown name in table order.
\<close>

theorem unknown_operation_aborts:
  assumes "(augment, prob, magnitude) \<in> set (concat table)" and "autoaugment_map augment = None"
  shows "(\<exists>e. build_policy table [] = Inl e)
       \<and> (list_all wf_triple (concat table) \<longrightarrow>
            (\<exists>a pr m. find unknown_op (concat table) = Some (a, pr, m)
               \<and> autoaugment_map a = None
               \<and> build_policy table [] = Inl (KeyError a)))"
proof -
  have fails: "\<exists>e. build_policy table [] = Inl e"
  proof (cases "build_policy table []")
    case (Inl e)
    then show ?thesis by blast
  next
    case (Inr r)
    from build_policy_all[OF Inr assms(1)] obtain tr where
      "make_transform (augment, prob, magnitude) = Inr tr" by blast
    with make_transform_unknown[OF assms(2), of prob magnitude] show ?thesis by simp
  qed
  have first: "\<exists>a pr m. find unknown_op (concat table) = Some (a, pr, m)
               \<and> autoaugment_map a = None \<and> build_policy table [] = Inl (KeyError a)"
    if wf: "list_all wf_triple (concat table)"
  proof -
    have "unknown_op (augment, prob, magnitude)" using assms(2) by (simp add: unknown_op_def)
    with assms(1) have "find unknown_op (concat table) \<noteq> None" by (auto simp: find_None_iff)
    then obtain t where t: "find unknown_op (concat table) = Some t" by blast
    obtain a pr m where apm: "t = (a, pr, m)" by (cases t)
    from t have "unknown_op t" by (auto simp: find_Some_iff)
    then have u: "autoaugment_map a = None" by (simp add: unknown_op_def apm)
    from build_policy_first[OF wf, of "[]"] t have "build_policy table [] = Inl (KeyError a)"
      by (simp add: apm)
    with t u apm show ?thesis by blast
  qed
  from fails first show ?thesis by blast
qed

theorem unknown_operation_aborts_witness:
  "(''Foo'', PInt 1, PInt 3) \<in> set (concat [[(''Posterize'', PInt 1, PInt 8), (''Foo'', PInt 1, PInt 3)],
                                             [(''Bar'', PInt 0, PInt 2), (''Rotate'', PInt 1, PInt 9)]])
   \<and> autoaugment_map ''Foo'' = None
   \<and> list_all wf_triple (concat [[(''Posterize'', PInt 1, PInt 8), (''Foo'', PInt 1, PInt 3)],
                                  [(''Bar'', PInt 0, PInt 2), (''Rotate'', PInt 1, PInt 9)]])
   \<and> build_policy [[(''Posterize'', PInt 1, PInt 8), (''Foo'', PInt 1, PInt 3)],
                     [(''Bar'', PInt 0, PInt 2), (''Rotate'', PInt 1, PInt 9)]] [] = Inl (KeyError ''Foo'')"
  using unknown_operation_aborts[of "''Foo''" "PInt 1" "PInt 3"
      "[[(''Posterize'', PInt 1, PInt 8), (''Foo'', PInt 1, PInt 3)],
        [(''Bar'', PInt 0, PInt 2), (''Rotate'', PInt 1, PInt 9)]]"]
  by (simp add: wf_triple_def unknown_op_def autoaugment_map_def prob_in_unit_def num_val_def
        del: build_policy.simps)

text \<open>
  C6. The claim: constructing an operation with a probability outside \<open>[0, 1]\<close>, or with a
  level outside the declared range, fails with the invalid-parameter error at the point
  of construction. No constructor of the source compares its magnitude with anything, and
  only the probability is handed to the base initialiser. Level \<open>50\<close>, outside \<open>[0, 10]\<close>,
  builds a Posterize step with \<open>bits = 4 - 20 = -16\<close> and a Rotate step with \<open>150\<close>
  degrees, and the constructors called with these magnitudes directly succeed as well.
\<close>

theorem level_not_validated:
  "make_transform (''Posterize'', PInt 1, PInt 50) = Inr (Posterize (PInt (- 16)) (PInt 1))
   \<and> make_transform (''Rotate'', PInt 1, PInt 50) = Inr (Rotate (PInt 150) True NEAREST (PInt 1))
   \<and> Posterize_init (PInt (- 16)) (PInt 1) = Inr (Posterize (PInt (- 16)) (PInt 1))
   \<and> Rotate_init (PInt 150) True NEAREST (PInt 1) = Inr (Rotate (PInt 150) True NEAREST (PInt 1))"
  by (simp add: autoaugment_map_def reparam_posterize_def reparam_rotate_def rescale_int_50_4
      rescale_int_50_30 init_defs init_ok prob_unit_int)

text \<open>
  C6, as amended. A probability outside \<open>[0, 1]\<close> fails with the invalid-parameter error at
  the point of construction, in every constructor and whatever the magnitude, and so does
  building a step from a triple with a registered name, a level in \<open>[0, 10]\<close> and such a
  probability. The magnitude is not validated: with a probability in \<open>[0, 1]\<close> every
  constructor succeeds for every magnitude and stores it as given.
\<close>

theorem construction_checks_probability_only:
  "ShearX_init v mir rs pr = (if prob_in_unit pr then Inr (ShearX v mir rs pr) else Inl InvalidParameter)
   \<and> ShearY_init v mir rs pr = (if prob_in_unit pr then Inr (ShearY v mir rs pr) else Inl InvalidParameter)
   \<and> TranslateX_init v mir rs pr = (if prob_in_unit pr then Inr (TranslateX v mir rs pr) else Inl InvalidParameter)
   \<and> TranslateY_init v mir rs pr = (if prob_in_unit pr then Inr (TranslateY v mir rs pr) else Inl InvalidParameter)
   \<and> Rotate_init v mir rs pr = (if prob_in_unit pr then Inr (Rotate v mir rs pr) else Inl InvalidParameter)
   \<and> Posterize_init v pr = (if prob_in_unit pr then Inr (Posterize v pr) else Inl InvalidParameter)
   \<and> Solarize_init v pr = (if prob_in_unit pr then Inr (Solarize v pr) else Inl InvalidParameter)
   \<and> Saturation_init v pr = (if prob_in_unit pr then Inr (Saturation v pr) else Inl InvalidParameter)
   \<and> Contrast_init v pr = (if prob_in_unit pr then Inr (Contrast v pr) else Inl InvalidParameter)
   \<and> Brightness_init v pr = (if prob_in_unit pr then Inr (Brightness v pr) else Inl InvalidParameter)
   \<and> Sharpness_init v pr = (if prob_in_unit pr then Inr (Sharpness v pr) else Inl InvalidParameter)
   \<and> Invert_init pr = (if prob_in_unit pr then Inr (Invert pr) else Inl InvalidParameter)
   \<and> AutoContrast_init pr = (if prob_in_unit pr then Inr (AutoContrast pr) else Inl InvalidParameter)
   \<and> Equalize_init pr = (if prob_in_unit pr then Inr (Equalize pr) else Inl InvalidParameter)
   \<and> (autoaugment_map a \<noteq> None \<and> num_val m = Some lv \<and> 0 \<le> lv \<and> lv \<le> 10 \<and> \<not> prob_in_unit pr
        \<longrightarrow> make_transform (a, pr, m) = Inl InvalidParameter)"
  using make_transform_bad_prob[of m lv a pr]
  by (simp add: init_defs RandomTransform_init_def del: make_transform.simps)

theorem construction_checks_probability_only_witness:
  "\<not> prob_in_unit (PInt 2) \<and> prob_in_unit (PInt 1)
   \<and> Posterize_init (PInt 99) (PInt 2) = Inl InvalidParameter
   \<and> Posterize_init (PInt 99) (PInt 1) = Inr (Posterize (PInt 99) (PInt 1))
   \<and> autoaugment_map ''Rotate'' \<noteq> None \<and> num_val (PInt 9) = Some 9
   \<and> make_transform (''Rotate'', PInt 2, PInt 9) = Inl InvalidParameter"
  using construction_checks_probability_only[of "PInt 99" True NEAREST "PInt 2" "''Rotate''" "PInt 9" 9]
    construction_checks_probability_only[of "PInt 99" True NEAREST "PInt 1" "''Rotate''" "PInt 9" 9]
  by (simp add: prob_in_unit_def num_val_def autoaugment_map_def
      del: make_transform.simps)






text \<open>
  C10. On an instance built with an empty policy list both entry points raise IndexError,
  from the draw; on every non-empty table the draw succeeds and yields a member of the
  table.
\<close>

theorem empty_policy_raises:
  "(policy self = [] \<longrightarrow>
      fst (AutoAugment_call pil self img g) = Inl IndexError \<and>
      fst (AutoAugment_check pil self img g) = Inl IndexError)
   \<and> (policy self \<noteq> [] \<longrightarrow>
        (\<exists>sel g'. random_choice (policy self) g = Inr (sel, g') \<and> sel \<in> set (policy self)))"
  by (auto simp: AutoAugment_call_def AutoAugment_check_def random_choice_def)

theorem empty_policy_raises_witness:
  "policy \<lparr>policy = []\<rparr> = []
   \<and> fst (AutoAugment_call pil_count \<lparr>policy = []\<rparr> 0 (sconst 0)) = Inl IndexError
   \<and> fst (AutoAugment_check pil_count \<lparr>policy = []\<rparr> 0 (sconst 0)) = Inl IndexError
   \<and> policy \<lparr>policy = [[Equalize (PInt 1)]]\<rparr> \<noteq> []
   \<and> (\<exists>sel g'. random_choice (policy \<lparr>policy = [[Equalize (PInt 1)]]\<rparr>) (sconst 0) = Inr (sel, g')
        \<and> sel \<in> set (policy \<lparr>policy = [[Equalize (PInt 1)]]\<rparr>))"
  using empty_policy_raises [of "\<lparr>policy = []\<rparr>" pil_count 0 "sconst 0"]
    empty_policy_raises [of "\<lparr>policy = [[Equalize (PInt 1)]]\<rparr>" pil_count 0 "sconst 0"]
  by simp


end
